theory Spec2Isabelle
  imports Main "HOL-Library.Sublist" "HOL-Library.AList" "HOL-Library.List_Lexorder"
    "HOL-Library.Char_ord"
begin

section \<open>Python strings\<close>

text \<open>
  A Python \<open>str\<close> is modelled as a HOL \<open>string\<close>. ASCII text is one character per
  code point; the two non-ASCII symbols that occur in the source's literals (the cross
  mark of the not-found message and the bullet of the listing) are written as their
  UTF-8 bytes. Every string of the static table is printable ASCII.
\<close>

definition nl :: char where
  "nl = CHR 0x0A"

definition cross_mark :: string where
  "cross_mark = [CHR 0xE2, CHR 0x9D, CHR 0x8C]"

definition bullet :: string where
  "bullet = [CHR 0xE2, CHR 0x80, CHR 0xA2]"

text \<open>
  \<open>str.lower()\<close>: the letters A to Z go to a to z and every other character is kept.
  This is exact on ASCII text. Outside ASCII, Python lowers by the Unicode tables, which
  are not part of the repository; the model keeps such characters unchanged.
\<close>

definition upper_letters :: string where
  "upper_letters = ''ABCDEFGHIJKLMNOPQRSTUVWXYZ''"

definition lower_letters :: string where
  "lower_letters = ''abcdefghijklmnopqrstuvwxyz''"

definition lower_char :: "char \<Rightarrow> char" where
  "lower_char c =
     (case map_of (zip upper_letters lower_letters) c of None \<Rightarrow> c | Some d \<Rightarrow> d)"

definition lower :: "string \<Rightarrow> string" where
  "lower s = map lower_char s"

text \<open>\<open>sep.join(xs)\<close>.\<close>

fun join :: "string \<Rightarrow> string list \<Rightarrow> string" where
  "join sep [] = []"
| "join sep [x] = x"
| "join sep (x # y # ys) = x @ sep @ join sep (y # ys)"

text \<open>
  \<open>s.replace(old, new)\<close> for a non-empty \<open>old\<close> (both call sites of the source pass a
  non-empty literal): occurrences are replaced from left to right, without overlap.
\<close>

fun replace :: "string \<Rightarrow> string \<Rightarrow> string \<Rightarrow> string" where
  "replace old new [] = []"
| "replace old new (c # cs) =
     (if old \<noteq> [] \<and> prefix old (c # cs)
      then new @ replace old new (drop (length old - 1) cs)
      else c # replace old new cs)"

text \<open>
  The lines of a text: the pieces between its newlines, as \<open>text.split("\n")\<close> gives them.
  The handlers do not call it; it says what a line of their output is.
\<close>

fun split_on :: "char \<Rightarrow> string \<Rightarrow> string list" where
  "split_on d [] = [[]]"
| "split_on d (c # cs) =
     (if c = d then [] # split_on d cs
      else (case split_on d cs of [] \<Rightarrow> [[c]] | l # ls \<Rightarrow> (c # l) # ls))"

text \<open>Hexadecimal digits, lower case, as Python's escapes print them.\<close>

definition hex_digit :: "nat \<Rightarrow> char" where
  "hex_digit d = ''0123456789abcdef'' ! (d mod 16)"

definition hex2 :: "char \<Rightarrow> string" where
  "hex2 c = (let n = (of_char c :: nat) in [hex_digit (n div 16), hex_digit (n mod 16)])"

text \<open>
  \<open>repr(s)\<close> of a string: single quotes, unless the string holds a single quote and no
  double quote; the quote in use and the backslash are escaped, tab, newline and carriage
  return are written \<open>\t\<close>, \<open>\n\<close>, \<open>\r\<close>, and the other ASCII control characters
  \<open>\xNN\<close>. Exact on ASCII text.
\<close>

definition repr_quote :: "string \<Rightarrow> char" where
  "repr_quote s = (if CHR 0x27 \<in> set s \<and> CHR 0x22 \<notin> set s then CHR 0x22 else CHR 0x27)"

definition repr_char :: "char \<Rightarrow> char \<Rightarrow> string" where
  "repr_char q c =
     (if c = q \<or> c = CHR 0x5C then [CHR 0x5C, c]
      else if c = CHR 0x09 then [CHR 0x5C, CHR ''t'']
      else if c = CHR 0x0A then [CHR 0x5C, CHR ''n'']
      else if c = CHR 0x0D then [CHR 0x5C, CHR ''r'']
      else if (of_char c :: nat) < 32 \<or> c = CHR 0x7F then [CHR 0x5C, CHR ''x''] @ hex2 c
      else [c])"

definition repr_str :: "string \<Rightarrow> string" where
  "repr_str s = (let q = repr_quote s in [q] @ concat (map (repr_char q) s) @ [q])"

text \<open>\<open>str(xs)\<close> of a list of strings, as an f-string prints it.\<close>

definition repr_list :: "string list \<Rightarrow> string" where
  "repr_list xs = ''['' @ join '', '' (map repr_str xs) @ '']''"

section \<open>JSON output of \<open>json.dumps(..., indent=2)\<close>\<close>

text \<open>
  String encoding with \<open>ensure_ascii\<close> (the default): the double quote and the backslash
  are escaped, the control characters with a short form use it, and every other character
  outside the range from space to tilde is written \<open>\u00NN\<close>. Exact on ASCII text.
\<close>

definition json_escape_char :: "char \<Rightarrow> string" where
  "json_escape_char c =
     (if c = CHR 0x22 then [CHR 0x5C, CHR 0x22]
      else if c = CHR 0x5C then [CHR 0x5C, CHR 0x5C]
      else if c = CHR 0x08 then [CHR 0x5C, CHR ''b'']
      else if c = CHR 0x0C then [CHR 0x5C, CHR ''f'']
      else if c = CHR 0x0A then [CHR 0x5C, CHR ''n'']
      else if c = CHR 0x0D then [CHR 0x5C, CHR ''r'']
      else if c = CHR 0x09 then [CHR 0x5C, CHR ''t'']
      else if (of_char c :: nat) < 32 \<or> 126 < (of_char c :: nat)
        then [CHR 0x5C, CHR ''u'', CHR ''0'', CHR ''0''] @ hex2 c
      else [c])"

definition json_string :: "string \<Rightarrow> string" where
  "json_string s = [CHR 0x22] @ concat (map json_escape_char s) @ [CHR 0x22]"

definition indent :: "nat \<Rightarrow> string" where
  "indent lvl = replicate (2 * lvl) CHR '' ''"

text \<open>
  An object at nesting depth \<open>lvl\<close>, whose members are given in the dict's order with
  their values already rendered: one member per line, indented one level deeper, members
  separated by a comma, key and value by a colon and a space. An empty dict is \<open>{}\<close>.
\<close>

definition json_object :: "nat \<Rightarrow> (string \<times> string) list \<Rightarrow> string" where
  "json_object lvl members =
     (if members = [] then ''{}''
      else ''{'' @ [nl] @ indent (lvl + 1)
           @ join ('','' @ [nl] @ indent (lvl + 1))
               (map (\<lambda>(k, v). json_string k @ '': '' @ v) members)
           @ [nl] @ indent lvl @ ''}'')"

section \<open>The static table\<close>

text \<open>
  Every record of \<open>PROJECTS\<close> is a dict literal with the same five keys in the same order;
  it is modelled as a record, and \<open>items\<close> gives the dict view in the literal's key order.
  The table itself is a dict from id to record, modelled as an association list in
  insertion order (its keys are distinct, as those of a dict are).
\<close>

record project =
  name :: string
  website_status :: string
  dashboard_status :: string
  deployment_platform :: string
  cost :: string

type_synonym table = "(string \<times> project) list"

definition items :: "project \<Rightarrow> (string \<times> string) list" where
  "items info =
     [(''name'', name info),
      (''website status'', website_status info),
      (''dashboard status'', dashboard_status info),
      (''deployment platform'', deployment_platform info),
      (''cost'', cost info)]"

definition PROJECTS :: table where
  "PROJECTS =
     [(''jamiat'', \<lparr>name = ''Jamiat'', website_status = ''live'', dashboard_status = ''live'',
         deployment_platform = ''Vercel'', cost = ''$20/mo''\<rparr>),
      (''sama'', \<lparr>name = ''SAMA'', website_status = ''live'', dashboard_status = ''development'',
         deployment_platform = ''Vercel'', cost = ''$20/mo''\<rparr>),
      (''safe'', \<lparr>name = ''SAFE'', website_status = ''live'', dashboard_status = ''live'',
         deployment_platform = ''Vercel'', cost = ''$20/mo''\<rparr>),
      (''next'', \<lparr>name = ''NEXT'', website_status = ''live'', dashboard_status = ''development'',
         deployment_platform = ''Vercel'', cost = ''$20/mo''\<rparr>),
      (''hamqadam'', \<lparr>name = ''Hamqadam'', website_status = ''live'', dashboard_status = ''live'',
         deployment_platform = ''Vercel + Sanity'', cost = ''$45/mo''\<rparr>)]"

text \<open>\<open>json.dumps(project, indent=2)\<close> and \<open>json.dumps(matches, indent=2)\<close>.\<close>

definition json_dumps_project :: "nat \<Rightarrow> project \<Rightarrow> string" where
  "json_dumps_project lvl info = json_object lvl (map (\<lambda>(k, v). (k, json_string v)) (items info))"

definition json_dumps_table :: "table \<Rightarrow> string" where
  "json_dumps_table t = json_object 0 (map (\<lambda>(pid, info). (pid, json_dumps_project 1 info)) t)"

text \<open>
  A string is plain when the JSON encoder leaves each of its characters as it is: printable
  ASCII without the double quote and the backslash. It is used to state what the JSON
  text of the table's records looks like.
\<close>

definition plain :: "string \<Rightarrow> bool" where
  "plain s = list_all (\<lambda>c. json_escape_char c = [c]) s"

definition plain_record :: "string \<times> project \<Rightarrow> bool" where
  "plain_record r =
     (case r of (pid, info) \<Rightarrow>
        plain pid \<and> plain (name info) \<and> plain (website_status info)
        \<and> plain (dashboard_status info) \<and> plain (deployment_platform info)
        \<and> plain (cost info))"

text \<open>
  The keys that a JSON block lists, in the order of its lines: on each line that has a
  double quote, the text between the first double quote and the next one. It reads the
  handlers' output; the handlers do not call it.
\<close>

definition line_key :: "string \<Rightarrow> string option" where
  "line_key l =
     (case dropWhile (\<lambda>c. c \<noteq> CHR 0x22) l of
        [] \<Rightarrow> None
      | q # rest \<Rightarrow> Some (takeWhile (\<lambda>c. c \<noteq> CHR 0x22) rest))"

definition emitted_keys :: "string \<Rightarrow> string list" where
  "emitted_keys text = List.map_filter line_key (split_on nl text)"

section \<open>The handlers\<close>

text \<open>
  The handlers read the module-level table and nothing else; the table is passed to them
  explicitly. \<open>PROJECTS.get(k)\<close> is \<open>map_of\<close>, \<open>PROJECTS.keys()\<close> is \<open>map fst\<close>,
  \<open>PROJECTS.items()\<close> is the list itself. In \<open>get_project\<close> the test \<open>not project\<close> holds
  for a missing key only: a record has its five keys, so it is never an empty dict. The
  parameters are strings, as the signatures declare them.
\<close>

definition get_project :: "table \<Rightarrow> string \<Rightarrow> string" where
  "get_project tbl project_id =
     (case map_of tbl (lower project_id) of
        None \<Rightarrow> cross_mark @ '' Project '' @ [CHR 0x27] @ project_id @ [CHR 0x27]
                 @ '' not found. Available: '' @ repr_list (map fst tbl)
      | Some project \<Rightarrow> json_dumps_project 0 project)"

text \<open>
  An id is present in a table, case-insensitively, when it agrees with one of the
  table's keys after both are lowered.
\<close>

definition present :: "table \<Rightarrow> string \<Rightarrow> bool" where
  "present tbl project_id = list_ex (\<lambda>k. lower k = lower project_id) (map fst tbl)"

text \<open>
  \<open>list_projects\<close>: the loop appends one formatted line per item of the table; the lines are
  joined by a newline.
\<close>

definition project_line :: "string \<Rightarrow> project \<Rightarrow> string" where
  "project_line pid info =
     bullet @ '' '' @ name info @ '' ('' @ pid @ '') - '' @ website_status info @ '' - ''
       @ dashboard_status info @ '' - '' @ deployment_platform info @ '' - '' @ cost info"

definition list_projects :: "table \<Rightarrow> string" where
  "list_projects tbl =
     join [nl] (foldl (\<lambda>summary (pid, info). summary @ [project_line pid info]) [] tbl)"

subsection \<open>Numbers of \<open>get_total_cost\<close>\<close>

text \<open>
  The total starts as the int \<open>0\<close>; a cost is the int \<open>0\<close> when the stripped string is the
  literal \<open>0\<close> and \<open>float(cost_str)\<close> otherwise. Adding a float to anything gives a float.
  The model covers the floats whose value is a whole number below \<open>2 ^ 53\<close>: they are
  exact in double precision, so is their sum as long as it stays below \<open>2 ^ 53\<close>, and
  \<open>str\<close> prints them as the decimal digits followed by \<open>.0\<close>. \<open>PyFloat n\<close> is the float of
  value \<open>n\<close>.
\<close>

datatype pynum = PyInt int | PyFloat int

fun num_val :: "pynum \<Rightarrow> int" where
  "num_val (PyInt n) = n"
| "num_val (PyFloat n) = n"

fun is_float :: "pynum \<Rightarrow> bool" where
  "is_float (PyInt n) = False"
| "is_float (PyFloat n) = True"

definition float_limit :: int where
  "float_limit = 2 ^ 53"

definition digit_value :: "char \<Rightarrow> nat option" where
  "digit_value c = map_of (zip ''0123456789'' [0, 1, 2, 3, 4, 5, 6, 7, 8, 9]) c"

fun digits_value :: "nat \<Rightarrow> string \<Rightarrow> nat option" where
  "digits_value acc [] = Some acc"
| "digits_value acc (c # cs) =
     (case digit_value c of None \<Rightarrow> None | Some d \<Rightarrow> digits_value (10 * acc + d) cs)"

text \<open>
  \<open>float(s)\<close> on a non-empty string of ASCII decimal digits whose value is below
  \<open>2 ^ 53\<close>. \<open>None\<close> stands for every other string: there \<open>float\<close> raises \<open>ValueError\<close>,
  or returns a value outside the floats modelled.
\<close>

definition py_float :: "string \<Rightarrow> pynum option" where
  "py_float s =
     (if s = [] then None
      else case digits_value 0 s of
             None \<Rightarrow> None
           | Some n \<Rightarrow> if int n < float_limit then Some (PyFloat (int n)) else None)"

text \<open>\<open>a + b\<close>; \<open>None\<close> when a float sum leaves the exact range.\<close>

fun py_add :: "pynum \<Rightarrow> pynum \<Rightarrow> pynum option" where
  "py_add (PyInt a) (PyInt b) = Some (PyInt (a + b))"
| "py_add x y =
     (if \<bar>num_val x + num_val y\<bar> < float_limit then Some (PyFloat (num_val x + num_val y))
      else None)"

definition digit_char :: "nat \<Rightarrow> char" where
  "digit_char d = ''0123456789'' ! (d mod 10)"

fun show_nat :: "nat \<Rightarrow> string" where
  "show_nat n = (if n < 10 then [digit_char n] else show_nat (n div 10) @ [digit_char (n mod 10)])"

declare show_nat.simps [simp del]

definition show_int :: "int \<Rightarrow> string" where
  "show_int i = (if i < 0 then ''-'' @ show_nat (nat (- i)) else show_nat (nat i))"

text \<open>\<open>str(x)\<close>, as the f-string of the total line prints the number.\<close>

fun py_str_num :: "pynum \<Rightarrow> string" where
  "py_str_num (PyInt n) = show_int n"
| "py_str_num (PyFloat n) = show_int n @ ''.0''"

subsection \<open>\<open>get_total_cost\<close>\<close>

text \<open>The two lines of the loop body that turn a record's cost string into a number.\<close>

definition cost_str_of :: "project \<Rightarrow> string" where
  "cost_str_of info = replace ''/mo'' [] (replace ''$'' [] (cost info))"

definition cost_of :: "project \<Rightarrow> pynum option" where
  "cost_of info =
     (let cost_str = cost_str_of info
      in if cost_str \<noteq> ''0'' then py_float cost_str else Some (PyInt 0))"

definition breakdown_line :: "project \<Rightarrow> string" where
  "breakdown_line info = ''  '' @ name info @ '': '' @ cost info"

text \<open>
  The loop over the items, on the state \<open>(total, breakdown)\<close>; it stops with \<open>None\<close> at
  the first record whose cost is outside the numbers modelled.
\<close>

fun total_cost_loop :: "table \<Rightarrow> pynum \<times> string list \<Rightarrow> (pynum \<times> string list) option" where
  "total_cost_loop [] st = Some st"
| "total_cost_loop ((pid, info) # rest) (tot, breakdown) =
     (case cost_of info of
        None \<Rightarrow> None
      | Some c \<Rightarrow>
          (case py_add tot c of
             None \<Rightarrow> None
           | Some tot' \<Rightarrow> total_cost_loop rest (tot', breakdown @ [breakdown_line info])))"

definition get_total_cost :: "table \<Rightarrow> string option" where
  "get_total_cost tbl =
     (case total_cost_loop tbl (PyInt 0, []) of
        None \<Rightarrow> None
      | Some (tot, breakdown) \<Rightarrow>
          Some (''Monthly Hosting Breakdown:'' @ [nl] @ join [nl] breakdown
                @ [nl, nl] @ ''Total: $'' @ py_str_num tot @ ''/mo''))"

subsection \<open>\<open>search_by_status\<close>\<close>

text \<open>
  A filter that is \<open>None\<close> matches every record; a supplied one is compared with the
  record's field after lowering both.
\<close>

definition status_match :: "string option \<Rightarrow> string \<Rightarrow> bool" where
  "status_match flt field = (case flt of None \<Rightarrow> True | Some f \<Rightarrow> lower field = lower f)"

text \<open>
  The loop that fills the dict \<open>matches\<close>: \<open>matches[pid] = info\<close> replaces the value of a
  key already present and appends a new key at the end.
\<close>

definition search_matches :: "table \<Rightarrow> string option \<Rightarrow> string option \<Rightarrow> table" where
  "search_matches tbl website_status' dashboard_status' =
     foldl (\<lambda>matches (pid, info).
              if status_match website_status' (website_status info)
                 \<and> status_match dashboard_status' (dashboard_status info)
              then AList.update pid info matches else matches)
       [] tbl"

text \<open>How an f-string prints an optional string: \<open>None\<close> prints as the word \<open>None\<close>.\<close>

definition format_opt :: "string option \<Rightarrow> string" where
  "format_opt v = (case v of None \<Rightarrow> ''None'' | Some s \<Rightarrow> s)"

definition no_projects_message :: "string option \<Rightarrow> string option \<Rightarrow> string" where
  "no_projects_message website_status' dashboard_status' =
     ''No projects found with website_status='' @ [CHR 0x27] @ format_opt website_status'
       @ [CHR 0x27] @ '', dashboard_status='' @ [CHR 0x27] @ format_opt dashboard_status'
       @ [CHR 0x27]"

definition search_by_status :: "table \<Rightarrow> string option \<Rightarrow> string option \<Rightarrow> string" where
  "search_by_status tbl website_status' dashboard_status' =
     (let matches = search_matches tbl website_status' dashboard_status'
      in if matches = [] then no_projects_message website_status' dashboard_status'
         else json_dumps_table matches)"

subsection \<open>A call and its result\<close>

text \<open>
  A call names a handler and gives its arguments. \<open>run_handler\<close> is the call's result on a
  table, paired with that table; a result \<open>None\<close> means that the call does not return a
  string. What a call does to the objects of the module is modelled on the object store
  below.
\<close>

datatype call =
    GetProject string
  | ListProjects
  | GetTotalCost
  | SearchByStatus "string option" "string option"

fun run_handler :: "call \<Rightarrow> table \<Rightarrow> string option \<times> table" where
  "run_handler (GetProject project_id) tbl = (Some (get_project tbl project_id), tbl)"
| "run_handler ListProjects tbl = (Some (list_projects tbl), tbl)"
| "run_handler GetTotalCost tbl = (get_total_cost tbl, tbl)"
| "run_handler (SearchByStatus ws ds) tbl = (Some (search_by_status tbl ws ds), tbl)"

subsection \<open>Handlers on the object store\<close>

text \<open>
  What a handler could change between two calls is the objects of the running module. The
  store holds them by address: the five record dicts, the table dict \<open>PROJECTS\<close>, whose
  values are the addresses of the records, and every list or dict that a handler creates.
  The state is the store and the address that the module-level name \<open>PROJECTS\<close> is bound
  to. Strings and numbers are immutable and stay values.
\<close>

type_synonym addr = nat

datatype obj = Rec project | Dict "(string \<times> addr) list" | Lst "string list"

record pystate =
  heap :: "obj list"
  projects_ref :: addr

definition heap_read :: "addr \<Rightarrow> obj list \<Rightarrow> obj option" where
  "heap_read a h = (if a < length h then Some (h ! a) else None)"

text \<open>A new object gets the next address; a write replaces the object at an address.\<close>

definition heap_alloc :: "obj \<Rightarrow> obj list \<Rightarrow> addr \<times> obj list" where
  "heap_alloc ob h = (length h, h @ [ob])"

definition heap_write :: "addr \<Rightarrow> obj \<Rightarrow> obj list \<Rightarrow> obj list" where
  "heap_write a ob h = h[a := ob]"

text \<open>
  The items of a dict of records with the records looked up in the store, as
  \<open>json.dumps\<close> and the loops over \<open>PROJECTS.items()\<close> read them; \<open>None\<close> when an address
  does not hold a record.
\<close>

fun deref_items :: "(string \<times> addr) list \<Rightarrow> obj list \<Rightarrow> table option" where
  "deref_items [] h = Some []"
| "deref_items ((pid, a) # rest) h =
     (case heap_read a h of
        Some (Rec info) \<Rightarrow>
          (case deref_items rest h of Some t \<Rightarrow> Some ((pid, info) # t) | None \<Rightarrow> None)
      | _ \<Rightarrow> None)"

text \<open>The table that a state holds under the name \<open>PROJECTS\<close>.\<close>

definition table_of :: "pystate \<Rightarrow> table option" where
  "table_of st =
     (case heap_read (projects_ref st) (heap st) of
        Some (Dict entries) \<Rightarrow> deref_items entries (heap st)
      | _ \<Rightarrow> None)"

text \<open>
  The state after the module is loaded: the records in the order of the literal, then the
  table dict that refers to them.
\<close>

definition load_table :: "table \<Rightarrow> pystate" where
  "load_table tbl =
     \<lparr>heap = map (\<lambda>(pid, info). Rec info) tbl
              @ [Dict (zip (map fst tbl) [0..<length tbl])],
      projects_ref = length tbl\<rparr>"

text \<open>
  \<open>get_project\<close> on the store: it reads the table dict and the record and creates no
  object that it keeps.
\<close>

definition exec_get_project :: "string \<Rightarrow> pystate \<Rightarrow> string option \<times> pystate" where
  "exec_get_project project_id st =
     (case heap_read (projects_ref st) (heap st) of
        Some (Dict entries) \<Rightarrow>
          (case map_of entries (lower project_id) of
             None \<Rightarrow>
               (Some (cross_mark @ '' Project '' @ [CHR 0x27] @ project_id @ [CHR 0x27]
                      @ '' not found. Available: '' @ repr_list (map fst entries)), st)
           | Some a \<Rightarrow>
               (case heap_read a (heap st) of
                  Some (Rec project) \<Rightarrow> (Some (json_dumps_project 0 project), st)
                | _ \<Rightarrow> (None, st)))
      | _ \<Rightarrow> (None, st))"

text \<open>
  \<open>list_projects\<close> on the store: \<open>summary = []\<close> creates a list, and each pass of the loop
  reads the record \<open>info\<close> refers to and appends a line to the list at \<open>summary\<close>. The loop
  runs over the items that the table has when the loop starts.
\<close>

fun list_projects_loop :: "(string \<times> addr) list \<Rightarrow> addr \<Rightarrow> obj list \<Rightarrow> bool \<times> obj list" where
  "list_projects_loop [] summary h = (True, h)"
| "list_projects_loop ((pid, a) # rest) summary h =
     (case heap_read a h of
        Some (Rec info) \<Rightarrow>
          (case heap_read summary h of
             Some (Lst xs) \<Rightarrow>
               list_projects_loop rest summary
                 (heap_write summary (Lst (xs @ [project_line pid info])) h)
           | _ \<Rightarrow> (False, h))
      | _ \<Rightarrow> (False, h))"

definition exec_list_projects :: "pystate \<Rightarrow> string option \<times> pystate" where
  "exec_list_projects st =
     (case heap_read (projects_ref st) (heap st) of
        Some (Dict entries) \<Rightarrow>
          (let (summary, h1) = heap_alloc (Lst []) (heap st);
               (ok, h2) = list_projects_loop entries summary h1
           in case heap_read summary h2 of
                Some (Lst xs) \<Rightarrow> (if ok then Some (join [nl] xs) else None, st\<lparr>heap := h2\<rparr>)
              | _ \<Rightarrow> (None, st\<lparr>heap := h2\<rparr>))
      | _ \<Rightarrow> (None, st))"

text \<open>
  \<open>get_total_cost\<close> on the store: \<open>total\<close> is a number and is passed along, \<open>breakdown = []\<close>
  creates a list that the loop appends to. A cost that does not parse ends the call
  without a result and leaves the list as far as it was filled.
\<close>

fun total_cost_store_loop ::
  "(string \<times> addr) list \<Rightarrow> addr \<Rightarrow> pynum \<Rightarrow> obj list \<Rightarrow> pynum option \<times> obj list" where
  "total_cost_store_loop [] breakdown tot h = (Some tot, h)"
| "total_cost_store_loop ((pid, a) # rest) breakdown tot h =
     (case heap_read a h of
        Some (Rec info) \<Rightarrow>
          (case cost_of info of
             None \<Rightarrow> (None, h)
           | Some c \<Rightarrow>
               (case py_add tot c of
                  None \<Rightarrow> (None, h)
                | Some tot' \<Rightarrow>
                    (case heap_read breakdown h of
                       Some (Lst xs) \<Rightarrow>
                         total_cost_store_loop rest breakdown tot'
                           (heap_write breakdown (Lst (xs @ [breakdown_line info])) h)
                     | _ \<Rightarrow> (None, h))))
      | _ \<Rightarrow> (None, h))"

definition exec_get_total_cost :: "pystate \<Rightarrow> string option \<times> pystate" where
  "exec_get_total_cost st =
     (case heap_read (projects_ref st) (heap st) of
        Some (Dict entries) \<Rightarrow>
          (let (breakdown, h1) = heap_alloc (Lst []) (heap st);
               (res, h2) = total_cost_store_loop entries breakdown (PyInt 0) h1
           in case (res, heap_read breakdown h2) of
                (Some tot, Some (Lst xs)) \<Rightarrow>
                  (Some (''Monthly Hosting Breakdown:'' @ [nl] @ join [nl] xs
                         @ [nl, nl] @ ''Total: $'' @ py_str_num tot @ ''/mo''),
                   st\<lparr>heap := h2\<rparr>)
              | _ \<Rightarrow> (None, st\<lparr>heap := h2\<rparr>))
      | _ \<Rightarrow> (None, st))"

text \<open>
  \<open>search_by_status\<close> on the store: \<open>matches = {}\<close> creates a dict, and
  \<open>matches[pid] = info\<close> stores in it the address of the record, not a copy: the new dict
  shares the records with the table. \<open>json.dumps(matches)\<close> reads the records through
  these addresses.
\<close>

fun search_loop ::
  "(string \<times> addr) list \<Rightarrow> string option \<Rightarrow> string option \<Rightarrow> addr \<Rightarrow> obj list
     \<Rightarrow> bool \<times> obj list" where
  "search_loop [] ws ds matches h = (True, h)"
| "search_loop ((pid, a) # rest) ws ds matches h =
     (case heap_read a h of
        Some (Rec info) \<Rightarrow>
          (if status_match ws (website_status info) \<and> status_match ds (dashboard_status info)
           then (case heap_read matches h of
                   Some (Dict ms) \<Rightarrow>
                     search_loop rest ws ds matches
                       (heap_write matches (Dict (AList.update pid a ms)) h)
                 | _ \<Rightarrow> (False, h))
           else search_loop rest ws ds matches h)
      | _ \<Rightarrow> (False, h))"

definition exec_search_by_status ::
  "string option \<Rightarrow> string option \<Rightarrow> pystate \<Rightarrow> string option \<times> pystate" where
  "exec_search_by_status ws ds st =
     (case heap_read (projects_ref st) (heap st) of
        Some (Dict entries) \<Rightarrow>
          (let (matches, h1) = heap_alloc (Dict []) (heap st);
               (ok, h2) = search_loop entries ws ds matches h1
           in case heap_read matches h2 of
                Some (Dict ms) \<Rightarrow>
                  (if \<not> ok then None
                   else if ms = [] then Some (no_projects_message ws ds)
                   else map_option json_dumps_table (deref_items ms h2),
                   st\<lparr>heap := h2\<rparr>)
              | _ \<Rightarrow> (None, st\<lparr>heap := h2\<rparr>))
      | _ \<Rightarrow> (None, st))"

text \<open>A call on the store, and the state after a sequence of calls.\<close>

fun exec :: "call \<Rightarrow> pystate \<Rightarrow> string option \<times> pystate" where
  "exec (GetProject project_id) st = exec_get_project project_id st"
| "exec ListProjects st = exec_list_projects st"
| "exec GetTotalCost st = exec_get_total_cost st"
| "exec (SearchByStatus ws ds) st = exec_search_by_status ws ds st"

definition exec_all :: "call list \<Rightarrow> pystate \<Rightarrow> pystate" where
  "exec_all cs st = foldl (\<lambda>s c. snd (exec c s)) st cs"

section \<open>Registry and dispatcher\<close>

text \<open>
  The repository registers its four handlers with the FastMCP framework and leaves the
  dispatch to it, so the registry and the dispatcher are described by the specification
  only. The names, the parameters and their defaults below are those of the source's
  decorated functions.
\<close>

text \<open>
  Modelled from the spec: the values of an argument mapping, which the source receives
  already decoded by the framework. A value is a string, a number, a truth value or null.
\<close>

datatype arg_value = StrV string | IntV int | BoolV bool | NullV

text \<open>
  Modelled from the spec: the faults of section 7 that a call can end with; the source
  defines no error class. \<open>ArgumentTypeError\<close> names the parameter.
\<close>

datatype fault =
    UnknownOperationError
  | MissingArgumentError
  | ArgumentTypeError string
  | HandlerExecutionError

text \<open>
  Modelled from the spec: the OperationDescriptor of section 3, which is not in the source.
  A parameter has a name and is required or optional; the declared type is \<open>str\<close> and the
  default of an optional parameter is \<open>None\<close> for every parameter of the source. The
  handler takes the bound arguments, in the order of the parameters.
\<close>

record param =
  pname :: string
  required :: bool

record descriptor =
  op_name :: string
  parameters :: "param list"
  handler :: "string option list \<Rightarrow> call option"

text \<open>
  Modelled from the spec: the Registry of section 4.1, which is not in the source. It holds
  the descriptors in registration order; \<open>lookup\<close> returns the descriptor of a name or
  fails with \<open>UnknownOperationError\<close>. Every parameter of the source is declared \<open>str\<close>;
  the optional ones have the default \<open>None\<close>.
\<close>

definition registry :: "descriptor list" where
  "registry =
     [\<lparr>op_name = ''get_project'',
        parameters = [\<lparr>pname = ''project_id'', required = True\<rparr>],
        handler = (\<lambda>vs. case vs of [Some project_id] \<Rightarrow> Some (GetProject project_id)
                            | _ \<Rightarrow> None)\<rparr>,
      \<lparr>op_name = ''list_projects'',
        parameters = [],
        handler = (\<lambda>vs. Some ListProjects)\<rparr>,
      \<lparr>op_name = ''get_total_cost'',
        parameters = [],
        handler = (\<lambda>vs. Some GetTotalCost)\<rparr>,
      \<lparr>op_name = ''search_by_status'',
        parameters = [\<lparr>pname = ''website_status'', required = False\<rparr>,
                      \<lparr>pname = ''dashboard_status'', required = False\<rparr>],
        handler = (\<lambda>vs. case vs of [ws, ds] \<Rightarrow> Some (SearchByStatus ws ds) | _ \<Rightarrow> None)\<rparr>]"

definition lookup :: "string \<Rightarrow> fault + descriptor" where
  "lookup nm =
     (case find (\<lambda>d. op_name d = nm) registry of
        None \<Rightarrow> Inl UnknownOperationError
      | Some d \<Rightarrow> Inr d)"

text \<open>
  Modelled from the spec: coercion of an argument to the declared type \<open>str\<close> (section 4.2,
  step 2). A string is taken as it is; any other value fails to coerce.
\<close>

fun coerce_str :: "arg_value \<Rightarrow> string option" where
  "coerce_str (StrV s) = Some s"
| "coerce_str v = None"

text \<open>
  Modelled from the spec: step 2 of the Dispatcher's algorithm, which is not in the source.
  Each declared parameter, in order: present, it is coerced, and a failure is
  \<open>ArgumentTypeError\<close> naming the parameter; absent and required, \<open>MissingArgumentError\<close>;
  absent and optional, the default \<open>None\<close>. An argument that no parameter declares is
  not looked at.
\<close>

fun bind_args :: "param list \<Rightarrow> (string \<rightharpoonup> arg_value) \<Rightarrow> fault + string option list" where
  "bind_args [] args = Inr []"
| "bind_args (p # ps) args =
     (case args (pname p) of
        Some v \<Rightarrow>
          (case coerce_str v of
             None \<Rightarrow> Inl (ArgumentTypeError (pname p))
           | Some s \<Rightarrow>
               (case bind_args ps args of Inl e \<Rightarrow> Inl e | Inr vs \<Rightarrow> Inr (Some s # vs)))
      | None \<Rightarrow>
          if required p then Inl MissingArgumentError
          else (case bind_args ps args of Inl e \<Rightarrow> Inl e | Inr vs \<Rightarrow> Inr (None # vs)))"

text \<open>
  Modelled from the spec: \<open>invoke\<close> of section 4.2, which is not in the source. The name is
  resolved, the arguments are bound, the handler is called on the table, and its string is
  returned as it is; a handler that does not return a string is \<open>HandlerExecutionError\<close>.
\<close>

definition invoke :: "table \<Rightarrow> string \<Rightarrow> (string \<rightharpoonup> arg_value) \<Rightarrow> fault + string" where
  "invoke tbl nm args =
     (case lookup nm of
        Inl e \<Rightarrow> Inl e
      | Inr d \<Rightarrow>
          (case bind_args (parameters d) args of
             Inl e \<Rightarrow> Inl e
           | Inr vs \<Rightarrow>
               (case handler d vs of
                  None \<Rightarrow> Inl HandlerExecutionError
                | Some c \<Rightarrow>
                    (case fst (run_handler c tbl) of
                       None \<Rightarrow> Inl HandlerExecutionError
                     | Some out \<Rightarrow> Inr out))))"

text \<open>
  Modelled from the spec: the argument mappings that step 2 of the Dispatcher lets through.
  A mapping conforms to a parameter list when every required parameter is present and
  every parameter that is present holds a string.
\<close>

definition conforms :: "param list \<Rightarrow> (string \<rightharpoonup> arg_value) \<Rightarrow> bool" where
  "conforms ps args =
     list_all (\<lambda>p. case args (pname p) of None \<Rightarrow> \<not> required p
                                        | Some v \<Rightarrow> coerce_str v \<noteq> None) ps"

text \<open>The argument mapping of a search call: it holds exactly the filters supplied.\<close>

definition status_args :: "string option \<Rightarrow> string option \<Rightarrow> (string \<rightharpoonup> arg_value)" where
  "status_args ws ds =
     (\<lambda>k. if k = ''website_status'' then map_option StrV ws
          else if k = ''dashboard_status'' then map_option StrV ds
          else None)"

section \<open>Facts about strings\<close>

lemma lower_char_idem: "lower_char (lower_char c) = lower_char c"
proof (cases "map_of (zip upper_letters lower_letters) c")
  case None
  then show ?thesis by (simp add: lower_char_def)
next
  case (Some d)
  then have "d \<in> set lower_letters"
    by (meson map_of_SomeD set_zip_rightD)
  then have "d \<notin> set upper_letters"
    by (auto simp: lower_letters_def upper_letters_def)
  then have "map_of (zip upper_letters lower_letters) d = None"
    by (simp add: map_of_eq_None_iff lower_letters_def upper_letters_def)
  with Some show ?thesis by (simp add: lower_char_def)
qed

lemma lower_idem: "lower (lower s) = lower s"
  by (simp add: lower_def lower_char_idem)

lemma lower_simps [simp]:
  "lower [] = []" "lower (c # cs) = lower_char c # lower cs"
  by (simp_all add: lower_def)

lemma sublist_context: "sublist xs ys \<Longrightarrow> sublist xs (ps @ ys @ ss)"
proof -
  assume "sublist xs ys"
  then obtain a b where "ys = a @ xs @ b" by (auto simp: sublist_def)
  then have "ps @ ys @ ss = (ps @ a) @ xs @ (b @ ss)" by simp
  then show ?thesis unfolding sublist_def by blast
qed

lemma sublist_join: "x \<in> set xs \<Longrightarrow> sublist x (join sep xs)"
proof (induction sep xs rule: join.induct)
  case (1 sep)
  then show ?case by simp
next
  case (2 sep y)
  then show ?case by simp
next
  case (3 sep y z zs)
  show ?case
  proof (cases "x = y")
    case True
    have "sublist y ([] @ y @ (sep @ join sep (z # zs)))" by (rule sublist_appendI)
    with True show ?thesis by simp
  next
    case False
    with 3 have "sublist x (join sep (z # zs))" by simp
    then have "sublist x ((y @ sep) @ join sep (z # zs) @ [])" by (rule sublist_context)
    then show ?thesis by simp
  qed
qed

lemma sublist_repr_list: "k \<in> set ks \<Longrightarrow> sublist (repr_str k) (repr_list ks)"
proof -
  assume "k \<in> set ks"
  then have "sublist (repr_str k) (join '', '' (map repr_str ks))"
    by (intro sublist_join) simp
  then have "sublist (repr_str k) (''['' @ join '', '' (map repr_str ks) @ '']'')"
    by (rule sublist_context)
  then show ?thesis by (simp add: repr_list_def)
qed

section \<open>The table's keys\<close>

lemma PROJECTS_keys: "map fst PROJECTS = [''jamiat'', ''sama'', ''safe'', ''next'', ''hamqadam'']"
  by (simp add: PROJECTS_def)

lemma PROJECTS_distinct: "distinct (map fst PROJECTS)"
  unfolding PROJECTS_keys by simp

lemma PROJECTS_keys_lower: "k \<in> set (map fst PROJECTS) \<Longrightarrow> lower k = k"
proof -
  have "list_all (\<lambda>k. lower k = k) (map fst PROJECTS)" by code_simp
  then show "k \<in> set (map fst PROJECTS) \<Longrightarrow> lower k = k"
    unfolding list_all_iff by blast
qed

lemma repr_list_PROJECTS:
  "repr_list (map fst PROJECTS) = ''['jamiat', 'sama', 'safe', 'next', 'hamqadam']''"
  by code_simp

text \<open>
  The keys of the static table are in lower case, so an id is present case-insensitively
  exactly when the lookup of its lowered form hits.
\<close>

lemma present_iff_hit:
  "present PROJECTS project_id \<longleftrightarrow> map_of PROJECTS (lower project_id) \<noteq> None"
proof
  assume "present PROJECTS project_id"
  then obtain k where k: "k \<in> set (map fst PROJECTS)" "lower k = lower project_id"
    by (auto simp: present_def list_ex_iff)
  then have "lower project_id \<in> fst ` set PROJECTS"
    using PROJECTS_keys_lower [OF k(1)] by simp
  then show "map_of PROJECTS (lower project_id) \<noteq> None"
    by (simp add: map_of_eq_None_iff)
next
  assume "map_of PROJECTS (lower project_id) \<noteq> None"
  then have "lower project_id \<in> set (map fst PROJECTS)"
    by (simp add: map_of_eq_None_iff)
  moreover have "lower (lower project_id) = lower project_id" by (rule lower_idem)
  ultimately show "present PROJECTS project_id"
    unfolding present_def list_ex_iff by blast
qed

lemma absent_miss: "\<not> present tbl project_id \<Longrightarrow> map_of tbl (lower project_id) = None"
proof (rule ccontr)
  assume np: "\<not> present tbl project_id" and "map_of tbl (lower project_id) \<noteq> None"
  then have "lower project_id \<in> set (map fst tbl)"
    by (simp add: map_of_eq_None_iff)
  moreover have "lower (lower project_id) = lower project_id" by (rule lower_idem)
  ultimately have "present tbl project_id"
    unfolding present_def list_ex_iff by blast
  with np show False by simp
qed

section \<open>Single-record lookup\<close>

lemma get_project_miss:
  "map_of tbl (lower project_id) = None \<Longrightarrow>
   get_project tbl project_id =
     cross_mark @ '' Project '' @ [CHR 0x27] @ project_id @ [CHR 0x27]
       @ '' not found. Available: '' @ repr_list (map fst tbl)"
  by (simp add: get_project_def)

lemma get_project_hit:
  "map_of tbl (lower project_id) = Some p \<Longrightarrow>
   get_project tbl project_id = json_dumps_project 0 p"
  by (simp add: get_project_def)

lemma not_found_inj:
  assumes "map_of tbl (lower s) = None" "map_of tbl (lower t) = None"
    and "get_project tbl s = get_project tbl t"
  shows "s = t"
proof -
  have "cross_mark @ '' Project '' @ [CHR 0x27] @ s @ [CHR 0x27]
          @ '' not found. Available: '' @ repr_list (map fst tbl)
      = cross_mark @ '' Project '' @ [CHR 0x27] @ t @ [CHR 0x27]
          @ '' not found. Available: '' @ repr_list (map fst tbl)"
    using assms by (simp add: get_project_miss)
  then have "s @ ([CHR 0x27] @ '' not found. Available: '' @ repr_list (map fst tbl))
      = t @ ([CHR 0x27] @ '' not found. Available: '' @ repr_list (map fst tbl))"
    by simp
  then show ?thesis by (simp only: append_same_eq)
qed

text \<open>
  Claim C4, as amended. The lookup lowers the id before it searches the table, so for an id
  that is present (case-insensitively) every casing variant returns the same record text;
  in particular \<open>JAMIAT\<close> and \<open>jamiat\<close> do. For an id that is not present the not-found
  message repeats the id as it was supplied, so two casing variants get the same message
  only when they are the same string.
\<close>

theorem get_project_case_insensitive:
  assumes "lower s = lower t"
  shows "(present PROJECTS s \<longrightarrow> get_project PROJECTS s = get_project PROJECTS t)
       \<and> (\<not> present PROJECTS s \<longrightarrow>
            (get_project PROJECTS s = get_project PROJECTS t \<longleftrightarrow> s = t))"
proof (intro conjI impI)
  assume "present PROJECTS s"
  then obtain p where "map_of PROJECTS (lower s) = Some p"
    by (auto simp: present_iff_hit)
  with assms show "get_project PROJECTS s = get_project PROJECTS t"
    by (simp add: get_project_def)
next
  assume "\<not> present PROJECTS s"
  then have s: "map_of PROJECTS (lower s) = None" by (rule absent_miss)
  with assms have t: "map_of PROJECTS (lower t) = None" by simp
  show "get_project PROJECTS s = get_project PROJECTS t \<longleftrightarrow> s = t"
  proof
    assume "get_project PROJECTS s = get_project PROJECTS t"
    with s t show "s = t" by (rule not_found_inj)
  next
    assume "s = t"
    then show "get_project PROJECTS s = get_project PROJECTS t" by simp
  qed
qed

theorem get_project_case_insensitive_witness:
  "lower ''JAMIAT'' = lower ''jamiat'' \<and> present PROJECTS ''JAMIAT''
   \<and> get_project PROJECTS ''JAMIAT'' = get_project PROJECTS ''jamiat''"
proof -
  have h: "lower ''JAMIAT'' = lower ''jamiat''" by code_simp
  have p: "present PROJECTS ''JAMIAT''" by code_simp
  from get_project_case_insensitive [OF h] p h show ?thesis by simp
qed

text \<open>
  The claim as it was stated, for every id string, fails on an id that is not in the
  table: \<open>FOO\<close> and \<open>foo\<close> are casing variants of each other and get different messages.
\<close>

theorem get_project_casing_counterexample:
  "lower ''FOO'' = lower ''foo''
   \<and> get_project PROJECTS ''FOO'' \<noteq> get_project PROJECTS ''foo''"
  by code_simp

text \<open>
  Claim C5. For an id that is not present (case-insensitively) the lookup returns the
  not-found message: it holds the words \<open>not found\<close> and, after them, the list of the
  table's ids, each id in it as Python prints a string.
\<close>

theorem get_project_not_found:
  assumes "\<not> present tbl project_id"
  shows "get_project tbl project_id =
           cross_mark @ '' Project '' @ [CHR 0x27] @ project_id @ [CHR 0x27]
             @ '' not found. Available: '' @ repr_list (map fst tbl)
    \<and> sublist ''not found'' (get_project tbl project_id)
    \<and> (\<forall>k \<in> set (map fst tbl). sublist (repr_str k) (get_project tbl project_id))"
proof -
  have miss: "map_of tbl (lower project_id) = None"
    using assms by (rule absent_miss)
  have eq: "get_project tbl project_id =
           cross_mark @ '' Project '' @ [CHR 0x27] @ project_id @ [CHR 0x27]
             @ '' not found. Available: '' @ repr_list (map fst tbl)"
    using miss by (rule get_project_miss)
  have "sublist ''not found''
          ((cross_mark @ '' Project '' @ [CHR 0x27] @ project_id @ [CHR 0x27] @ '' '')
           @ ''not found'' @ (''. Available: '' @ repr_list (map fst tbl)))"
    by (rule sublist_appendI)
  then have nf: "sublist ''not found'' (get_project tbl project_id)"
    by (simp add: eq)
  have "sublist (repr_str k) (get_project tbl project_id)" if "k \<in> set (map fst tbl)" for k
  proof -
    have "sublist (repr_str k) (repr_list (map fst tbl))"
      using that by (rule sublist_repr_list)
    then have "sublist (repr_str k)
        ((cross_mark @ '' Project '' @ [CHR 0x27] @ project_id @ [CHR 0x27]
             @ '' not found. Available: '') @ repr_list (map fst tbl) @ [])"
      by (rule sublist_context)
    then show ?thesis by (simp add: eq)
  qed
  with eq nf show ?thesis by blast
qed

theorem get_project_not_found_witness:
  "\<not> present PROJECTS ''nonexistent''
   \<and> get_project PROJECTS ''nonexistent'' =
       cross_mark @ '' Project 'nonexistent' not found. Available: ''
         @ ''['jamiat', 'sama', 'safe', 'next', 'hamqadam']''
   \<and> sublist ''not found'' (get_project PROJECTS ''nonexistent'')
   \<and> sublist ''jamiat'' (get_project PROJECTS ''nonexistent'')
   \<and> sublist ''hamqadam'' (get_project PROJECTS ''nonexistent'')"
proof -
  have a: "\<not> present PROJECTS ''nonexistent''" by code_simp
  note r = get_project_not_found [OF a]
  have eq: "get_project PROJECTS ''nonexistent'' =
       cross_mark @ '' Project 'nonexistent' not found. Available: ''
         @ ''['jamiat', 'sama', 'safe', 'next', 'hamqadam']''"
    using r by (simp add: repr_list_PROJECTS)
  have j: "sublist ''jamiat''
            ((cross_mark @ '' Project 'nonexistent' not found. Available: ['' @ [CHR 0x27])
            @ ''jamiat'' @ ([CHR 0x27] @ '', 'sama', 'safe', 'next', 'hamqadam']''))"
    by (rule sublist_appendI)
  have h: "sublist ''hamqadam''
            ((cross_mark @ '' Project 'nonexistent' not found. Available: ''
               @ ''['jamiat', 'sama', 'safe', 'next', '' @ [CHR 0x27])
             @ ''hamqadam'' @ ([CHR 0x27] @ '']''))"
    by (rule sublist_appendI)
  from r have nf: "sublist ''not found'' (get_project PROJECTS ''nonexistent'')"
    by blast
  from j have j': "sublist ''jamiat'' (get_project PROJECTS ''nonexistent'')"
    by (simp add: eq)
  from h have h': "sublist ''hamqadam'' (get_project PROJECTS ''nonexistent'')"
    by (simp add: eq)
  from a eq nf j' h' show ?thesis by blast
qed

lemma json_dumps_project_lines:
  \<open>json_dumps_project 0 info =
     join [nl]
       [''{'',
        ''  "name": '' @ json_string (name info) @ '','',
        ''  "website status": '' @ json_string (website_status info) @ '','',
        ''  "dashboard status": '' @ json_string (dashboard_status info) @ '','',
        ''  "deployment platform": '' @ json_string (deployment_platform info) @ '','',
        ''  "cost": '' @ json_string (cost info),
        ''}'']\<close>
proof -
  have keys: \<open>json_string ''name'' = ''"name"''\<close>
    \<open>json_string ''website status'' = ''"website status"''\<close>
    \<open>json_string ''dashboard status'' = ''"dashboard status"''\<close>
    \<open>json_string ''deployment platform'' = ''"deployment platform"''\<close>
    \<open>json_string ''cost'' = ''"cost"''\<close>
    by code_simp+
  have ind: "indent 0 = []" "indent (Suc 0) = ''  ''"
    by code_simp+
  show ?thesis
    by (simp add: json_dumps_project_def json_object_def items_def keys ind)
qed

lemma PROJECTS_emitted_keys:
  "list_all (\<lambda>(pid, info).
       emitted_keys (json_dumps_project 0 info) =
         [''name'', ''website status'', ''dashboard status'', ''deployment platform'', ''cost''])
     PROJECTS"
  by code_simp

text \<open>
  Claim C6, as amended. For an id that is present (case-insensitively) the lookup returns
  the JSON text of the record stored under the lowered id: an opening brace, one line per
  field and a closing brace. The keys that the text lists are, for every record, name,
  website status, dashboard status, deployment platform, cost, in this order: the order in
  which the table's records declare their keys.
\<close>

theorem get_project_hit_block:
  assumes \<open>present PROJECTS project_id\<close>
  shows \<open>\<exists>info. map_of PROJECTS (lower project_id) = Some info
     \<and> emitted_keys (get_project PROJECTS project_id) =
         [''name'', ''website status'', ''dashboard status'', ''deployment platform'', ''cost'']
     \<and> get_project PROJECTS project_id =
         join [nl]
           [''{'',
            ''  "name": '' @ json_string (name info) @ '','',
            ''  "website status": '' @ json_string (website_status info) @ '','',
            ''  "dashboard status": '' @ json_string (dashboard_status info) @ '','',
            ''  "deployment platform": '' @ json_string (deployment_platform info) @ '','',
            ''  "cost": '' @ json_string (cost info),
            ''}'']\<close>
proof -
  from assms obtain info where hit: "map_of PROJECTS (lower project_id) = Some info"
    by (auto simp: present_iff_hit)
  then have g: "get_project PROJECTS project_id = json_dumps_project 0 info"
    by (rule get_project_hit)
  from hit have "(lower project_id, info) \<in> set PROJECTS" by (rule map_of_SomeD)
  with PROJECTS_emitted_keys
  have "emitted_keys (json_dumps_project 0 info) =
         [''name'', ''website status'', ''dashboard status'', ''deployment platform'', ''cost'']"
    unfolding list_all_iff by fast
  then have k: "emitted_keys (get_project PROJECTS project_id) =
         [''name'', ''website status'', ''dashboard status'', ''deployment platform'', ''cost'']"
    by (simp only: g)
  have t: \<open>get_project PROJECTS project_id =
         join [nl]
           [''{'',
            ''  "name": '' @ json_string (name info) @ '','',
            ''  "website status": '' @ json_string (website_status info) @ '','',
            ''  "dashboard status": '' @ json_string (dashboard_status info) @ '','',
            ''  "deployment platform": '' @ json_string (deployment_platform info) @ '','',
            ''  "cost": '' @ json_string (cost info),
            ''}'']\<close>
    by (simp only: g json_dumps_project_lines)
  from hit k t show ?thesis by (intro exI conjI)
qed

theorem get_project_hit_block_witness:
  \<open>present PROJECTS ''JAMIAT''
   \<and> emitted_keys (get_project PROJECTS ''JAMIAT'') =
       [''name'', ''website status'', ''dashboard status'', ''deployment platform'', ''cost'']
   \<and> get_project PROJECTS ''JAMIAT'' =
       ''{\<newline>  "name": "Jamiat",\<newline>  "website status": "live",\<newline>''
       @ ''  "dashboard status": "live",\<newline>  "deployment platform": "Vercel",\<newline>''
       @ ''  "cost": "$20/mo"\<newline>}''\<close>
proof -
  have p: "present PROJECTS ''JAMIAT''" by code_simp
  have m: "map_of PROJECTS (lower ''JAMIAT'') =
     Some \<lparr>name = ''Jamiat'', website_status = ''live'', dashboard_status = ''live'',
         deployment_platform = ''Vercel'', cost = ''$20/mo''\<rparr>"
    by code_simp
  have vals: \<open>json_string ''Jamiat'' = ''"Jamiat"''\<close> \<open>json_string ''live'' = ''"live"''\<close>
    \<open>json_string ''Vercel'' = ''"Vercel"''\<close> \<open>json_string ''$20/mo'' = ''"$20/mo"''\<close>
    by code_simp+
  from get_project_hit_block [OF p] m obtain info where
    i: "info = \<lparr>name = ''Jamiat'', website_status = ''live'', dashboard_status = ''live'',
         deployment_platform = ''Vercel'', cost = ''$20/mo''\<rparr>"
    and k: "emitted_keys (get_project PROJECTS ''JAMIAT'') =
       [''name'', ''website status'', ''dashboard status'', ''deployment platform'', ''cost'']"
    and t: \<open>get_project PROJECTS ''JAMIAT'' =
         join [nl]
           [''{'',
            ''  "name": '' @ json_string (name info) @ '','',
            ''  "website status": '' @ json_string (website_status info) @ '','',
            ''  "dashboard status": '' @ json_string (dashboard_status info) @ '','',
            ''  "deployment platform": '' @ json_string (deployment_platform info) @ '','',
            ''  "cost": '' @ json_string (cost info),
            ''}'']\<close>
    by auto
  from t have \<open>get_project PROJECTS ''JAMIAT'' =
       ''{\<newline>  "name": "Jamiat",\<newline>  "website status": "live",\<newline>''
       @ ''  "dashboard status": "live",\<newline>  "deployment platform": "Vercel",\<newline>''
       @ ''  "cost": "$20/mo"\<newline>}''\<close>
    by (simp add: i vals nl_def)
  with p k show ?thesis by (intro conjI)
qed

text \<open>
  The claim as it was stated has the fields in key order. The lookup of \<open>jamiat\<close> lists
  \<open>name\<close> first and \<open>cost\<close> last, which is not the order of the keys: sorted, the keys
  begin with \<open>cost\<close>.
\<close>

theorem get_project_key_order_counterexample:
  "emitted_keys (get_project PROJECTS ''jamiat'') =
     [''name'', ''website status'', ''dashboard status'', ''deployment platform'', ''cost'']
   \<and> \<not> sorted (emitted_keys (get_project PROJECTS ''jamiat''))
   \<and> sort (emitted_keys (get_project PROJECTS ''jamiat'')) =
       [''cost'', ''dashboard status'', ''deployment platform'', ''name'', ''website status'']"
  by code_simp

section \<open>Search by status\<close>

lemma update_fresh: "k \<notin> fst ` set al \<Longrightarrow> AList.update k v al = al @ [(k, v)]"
  by (induction al) auto

lemma search_loop_filter:
  assumes "distinct (map fst tbl)" and "fst ` set acc \<inter> fst ` set tbl = {}"
  shows "foldl (\<lambda>matches (pid, info). if P pid info then AList.update pid info matches else matches)
           acc tbl
         = acc @ filter (\<lambda>(pid, info). P pid info) tbl"
  using assms
proof (induction tbl arbitrary: acc)
  case Nil
  then show ?case by simp
next
  case (Cons r rest)
  obtain pid info where r: "r = (pid, info)" by (cases r)
  from Cons.prems have d: "distinct (map fst rest)" and fresh: "pid \<notin> fst ` set acc"
    and pr: "pid \<notin> fst ` set rest" and disj: "fst ` set acc \<inter> fst ` set rest = {}"
    by (auto simp: r)
  show ?case
  proof (cases "P pid info")
    case True
    have "fst ` set (acc @ [(pid, info)]) \<inter> fst ` set rest = {}"
      using disj pr by auto
    with d have "foldl (\<lambda>matches (pid, info). if P pid info then AList.update pid info matches else matches)
        (acc @ [(pid, info)]) rest
      = (acc @ [(pid, info)]) @ filter (\<lambda>(pid, info). P pid info) rest"
      by (rule Cons.IH)
    with True fresh show ?thesis by (simp add: r update_fresh)
  next
    case False
    from d disj have "foldl (\<lambda>matches (pid, info). if P pid info then AList.update pid info matches else matches)
        acc rest
      = acc @ filter (\<lambda>(pid, info). P pid info) rest"
      by (rule Cons.IH)
    with False show ?thesis by (simp add: r)
  qed
qed

lemma search_matches_filter:
  "distinct (map fst tbl) \<Longrightarrow>
   search_matches tbl ws ds =
     filter (\<lambda>(pid, info). status_match ws (website_status info)
                           \<and> status_match ds (dashboard_status info)) tbl"
  unfolding search_matches_def
  using search_loop_filter [of tbl "[]"
      "\<lambda>pid info. status_match ws (website_status info) \<and> status_match ds (dashboard_status info)"]
  by simp

lemma status_match_iff:
  "status_match flt field \<longleftrightarrow> (\<forall>f. flt = Some f \<longrightarrow> lower field = lower f)"
  by (cases flt) (simp_all add: status_match_def)

lemma json_string_plain: "plain s \<Longrightarrow> json_string s = [CHR 0x22] @ s @ [CHR 0x22]"
proof -
  assume "plain s"
  then have "concat (map json_escape_char s) = s"
    by (induction s) (simp_all add: plain_def)
  then show ?thesis by (simp add: json_string_def)
qed

lemma PROJECTS_plain: "list_all plain_record PROJECTS"
  by code_simp

lemma record_text_plain:
  assumes "plain_record (pid, info)"
  shows \<open>json_string pid @ '': '' @ json_dumps_project 1 info =
     ''"'' @ pid @ ''": {'' @ [nl]
     @ ''    "name": "'' @ name info @ ''",'' @ [nl]
     @ ''    "website status": "'' @ website_status info @ ''",'' @ [nl]
     @ ''    "dashboard status": "'' @ dashboard_status info @ ''",'' @ [nl]
     @ ''    "deployment platform": "'' @ deployment_platform info @ ''",'' @ [nl]
     @ ''    "cost": "'' @ cost info @ ''"'' @ [nl]
     @ ''  }''\<close>
proof -
  have keys: \<open>json_string ''name'' = ''"name"''\<close>
    \<open>json_string ''website status'' = ''"website status"''\<close>
    \<open>json_string ''dashboard status'' = ''"dashboard status"''\<close>
    \<open>json_string ''deployment platform'' = ''"deployment platform"''\<close>
    \<open>json_string ''cost'' = ''"cost"''\<close>
    by code_simp+
  have ind: "indent (Suc 0) = ''  ''" "indent (Suc (Suc 0)) = ''    ''"
    by code_simp+
  from assms have v: "json_string pid = [CHR 0x22] @ pid @ [CHR 0x22]"
    "json_string (name info) = [CHR 0x22] @ name info @ [CHR 0x22]"
    "json_string (website_status info) = [CHR 0x22] @ website_status info @ [CHR 0x22]"
    "json_string (dashboard_status info) = [CHR 0x22] @ dashboard_status info @ [CHR 0x22]"
    "json_string (deployment_platform info) = [CHR 0x22] @ deployment_platform info @ [CHR 0x22]"
    "json_string (cost info) = [CHR 0x22] @ cost info @ [CHR 0x22]"
    by (simp_all add: plain_record_def json_string_plain)
  show ?thesis
    by (simp add: json_dumps_project_def json_object_def items_def keys ind v)
qed

lemma json_dumps_table_plain:
  assumes "t \<noteq> []" and "list_all plain_record t"
  shows \<open>json_dumps_table t =
     ''{'' @ [nl] @ ''  ''
     @ join ('','' @ [nl] @ ''  '')
         (map (\<lambda>(pid, info).
            ''"'' @ pid @ ''": {'' @ [nl]
            @ ''    "name": "'' @ name info @ ''",'' @ [nl]
            @ ''    "website status": "'' @ website_status info @ ''",'' @ [nl]
            @ ''    "dashboard status": "'' @ dashboard_status info @ ''",'' @ [nl]
            @ ''    "deployment platform": "'' @ deployment_platform info @ ''",'' @ [nl]
            @ ''    "cost": "'' @ cost info @ ''"'' @ [nl]
            @ ''  }'') t)
     @ [nl] @ ''}''\<close>
    (is \<open>_ = ''{'' @ [nl] @ ''  '' @ join _ (map ?block t) @ [nl] @ ''}''\<close>)
proof -
  have ind: "indent 0 = []" "indent (0 + 1) = ''  ''"
    by code_simp+
  have "map (\<lambda>(k, v). json_string k @ '': '' @ v)
          (map (\<lambda>(pid, info). (pid, json_dumps_project 1 info)) t)
      = map (\<lambda>(pid, info). json_string pid @ '': '' @ json_dumps_project 1 info) t"
    by (induction t) auto
  also have "\<dots> = map ?block t"
  proof (rule map_cong [OF refl])
    fix r assume "r \<in> set t"
    with assms(2) have p: "plain_record r" by (simp add: list_all_iff)
    obtain pid info where r: "r = (pid, info)" by (cases r)
    from p show "(case r of (pid, info) \<Rightarrow> json_string pid @ '': '' @ json_dumps_project 1 info)
        = ?block r"
      unfolding r prod.case by (rule record_text_plain)
  qed
  finally have m: "map (\<lambda>(k, v). json_string k @ '': '' @ v)
          (map (\<lambda>(pid, info). (pid, json_dumps_project 1 info)) t) = map ?block t" .
  from assms(1) show ?thesis
    unfolding json_dumps_table_def json_object_def m ind by simp
qed

text \<open>
  Claim C1. The records that the search collects are exactly the records of the static
  table, in table order, for which every supplied filter equals the record's field after
  both are lowered; a filter that is not supplied constrains nothing. The text that the
  handler returns is the JSON object of exactly these records: per record its id and,
  nested, its five fields with their values; when no record matches, it is the
  no-projects message. With no filter the text is that of all five records, and with
  both filters \<open>live\<close> it is that of jamiat, safe and hamqadam, the records whose two
  status fields are \<open>live\<close>.
\<close>

theorem search_by_status_exact:
  \<open>search_matches PROJECTS ws ds =
     filter (\<lambda>(pid, info). (\<forall>f. ws = Some f \<longrightarrow> lower (website_status info) = lower f)
                          \<and> (\<forall>f. ds = Some f \<longrightarrow> lower (dashboard_status info) = lower f))
       PROJECTS
   \<and> search_by_status PROJECTS ws ds =
       (if search_matches PROJECTS ws ds = []
        then ''No projects found with website_status='' @ [CHR 0x27] @ format_opt ws
             @ [CHR 0x27] @ '', dashboard_status='' @ [CHR 0x27] @ format_opt ds @ [CHR 0x27]
        else ''{'' @ [nl] @ ''  ''
             @ join ('','' @ [nl] @ ''  '')
                 (map (\<lambda>(pid, info).
                ''"'' @ pid @ ''": {'' @ [nl]
                @ ''    "name": "'' @ name info @ ''",'' @ [nl]
                @ ''    "website status": "'' @ website_status info @ ''",'' @ [nl]
                @ ''    "dashboard status": "'' @ dashboard_status info @ ''",'' @ [nl]
                @ ''    "deployment platform": "'' @ deployment_platform info @ ''",'' @ [nl]
                @ ''    "cost": "'' @ cost info @ ''"'' @ [nl]
                @ ''  }'')
                    (search_matches PROJECTS ws ds))
             @ [nl] @ ''}'')
   \<and> search_matches PROJECTS None None = PROJECTS
   \<and> search_by_status PROJECTS None None =
       ''{\<newline>''
       @ ''  "jamiat": {\<newline>    "name": "Jamiat",\<newline>    "website status": "live",\<newline>''
       @ ''    "dashboard status": "live",\<newline>    "deployment platform": "Vercel",\<newline>    "cost": "$20/mo"\<newline>  },\<newline>''
       @ ''  "sama": {\<newline>    "name": "SAMA",\<newline>    "website status": "live",\<newline>''
       @ ''    "dashboard status": "development",\<newline>    "deployment platform": "Vercel",\<newline>    "cost": "$20/mo"\<newline>  },\<newline>''
       @ ''  "safe": {\<newline>    "name": "SAFE",\<newline>    "website status": "live",\<newline>''
       @ ''    "dashboard status": "live",\<newline>    "deployment platform": "Vercel",\<newline>    "cost": "$20/mo"\<newline>  },\<newline>''
       @ ''  "next": {\<newline>    "name": "NEXT",\<newline>    "website status": "live",\<newline>''
       @ ''    "dashboard status": "development",\<newline>    "deployment platform": "Vercel",\<newline>    "cost": "$20/mo"\<newline>  },\<newline>''
       @ ''  "hamqadam": {\<newline>    "name": "Hamqadam",\<newline>    "website status": "live",\<newline>''
       @ ''    "dashboard status": "live",\<newline>    "deployment platform": "Vercel + Sanity",\<newline>    "cost": "$45/mo"\<newline>  }\<newline>''
       @ ''}''
   \<and> search_matches PROJECTS (Some ''live'') (Some ''live'') =
       filter (\<lambda>(pid, info). lower (website_status info) = ''live''
                             \<and> lower (dashboard_status info) = ''live'') PROJECTS
   \<and> map fst (search_matches PROJECTS (Some ''live'') (Some ''live'')) =
       [''jamiat'', ''safe'', ''hamqadam'']
   \<and> search_by_status PROJECTS (Some ''live'') (Some ''live'') =
       ''{\<newline>''
       @ ''  "jamiat": {\<newline>    "name": "Jamiat",\<newline>    "website status": "live",\<newline>''
       @ ''    "dashboard status": "live",\<newline>    "deployment platform": "Vercel",\<newline>    "cost": "$20/mo"\<newline>  },\<newline>''
       @ ''  "safe": {\<newline>    "name": "SAFE",\<newline>    "website status": "live",\<newline>''
       @ ''    "dashboard status": "live",\<newline>    "deployment platform": "Vercel",\<newline>    "cost": "$20/mo"\<newline>  },\<newline>''
       @ ''  "hamqadam": {\<newline>    "name": "Hamqadam",\<newline>    "website status": "live",\<newline>''
       @ ''    "dashboard status": "live",\<newline>    "deployment platform": "Vercel + Sanity",\<newline>    "cost": "$45/mo"\<newline>  }\<newline>''
       @ ''}''\<close>
proof -
  note m = search_matches_filter [OF PROJECTS_distinct]
  have a: "search_matches PROJECTS ws ds =
     filter (\<lambda>(pid, info). (\<forall>f. ws = Some f \<longrightarrow> lower (website_status info) = lower f)
                          \<and> (\<forall>f. ds = Some f \<longrightarrow> lower (dashboard_status info) = lower f))
       PROJECTS"
    by (simp only: m status_match_iff)
  have pl: "list_all plain_record (search_matches PROJECTS ws ds)"
    using PROJECTS_plain unfolding m list_all_iff by simp
  have b: \<open>search_by_status PROJECTS ws ds =
       (if search_matches PROJECTS ws ds = []
        then ''No projects found with website_status='' @ [CHR 0x27] @ format_opt ws
             @ [CHR 0x27] @ '', dashboard_status='' @ [CHR 0x27] @ format_opt ds @ [CHR 0x27]
        else ''{'' @ [nl] @ ''  ''
             @ join ('','' @ [nl] @ ''  '')
                 (map (\<lambda>(pid, info).
                ''"'' @ pid @ ''": {'' @ [nl]
                @ ''    "name": "'' @ name info @ ''",'' @ [nl]
                @ ''    "website status": "'' @ website_status info @ ''",'' @ [nl]
                @ ''    "dashboard status": "'' @ dashboard_status info @ ''",'' @ [nl]
                @ ''    "deployment platform": "'' @ deployment_platform info @ ''",'' @ [nl]
                @ ''    "cost": "'' @ cost info @ ''"'' @ [nl]
                @ ''  }'')
                    (search_matches PROJECTS ws ds))
             @ [nl] @ ''}'')\<close>
  proof (cases "search_matches PROJECTS ws ds = []")
    case True
    then show ?thesis
      by (simp add: search_by_status_def no_projects_message_def)
  next
    case False
    then have "search_by_status PROJECTS ws ds = json_dumps_table (search_matches PROJECTS ws ds)"
      by (simp add: search_by_status_def)
    with False json_dumps_table_plain [OF False pl] show ?thesis
      by (simp only: if_False)
  qed
  have c: "search_matches PROJECTS None None = PROJECTS"
    by (simp add: m status_match_def)
  have d: \<open>search_by_status PROJECTS None None =
       ''{\<newline>''
       @ ''  "jamiat": {\<newline>    "name": "Jamiat",\<newline>    "website status": "live",\<newline>''
       @ ''    "dashboard status": "live",\<newline>    "deployment platform": "Vercel",\<newline>    "cost": "$20/mo"\<newline>  },\<newline>''
       @ ''  "sama": {\<newline>    "name": "SAMA",\<newline>    "website status": "live",\<newline>''
       @ ''    "dashboard status": "development",\<newline>    "deployment platform": "Vercel",\<newline>    "cost": "$20/mo"\<newline>  },\<newline>''
       @ ''  "safe": {\<newline>    "name": "SAFE",\<newline>    "website status": "live",\<newline>''
       @ ''    "dashboard status": "live",\<newline>    "deployment platform": "Vercel",\<newline>    "cost": "$20/mo"\<newline>  },\<newline>''
       @ ''  "next": {\<newline>    "name": "NEXT",\<newline>    "website status": "live",\<newline>''
       @ ''    "dashboard status": "development",\<newline>    "deployment platform": "Vercel",\<newline>    "cost": "$20/mo"\<newline>  },\<newline>''
       @ ''  "hamqadam": {\<newline>    "name": "Hamqadam",\<newline>    "website status": "live",\<newline>''
       @ ''    "dashboard status": "live",\<newline>    "deployment platform": "Vercel + Sanity",\<newline>    "cost": "$45/mo"\<newline>  }\<newline>''
       @ ''}''\<close>
    by code_simp
  have l: "lower ''live'' = ''live''" by code_simp
  have e: "search_matches PROJECTS (Some ''live'') (Some ''live'') =
       filter (\<lambda>(pid, info). lower (website_status info) = ''live''
                             \<and> lower (dashboard_status info) = ''live'') PROJECTS"
    by (simp add: m status_match_def l del: lower_simps)
  have "map fst (filter (\<lambda>(pid, info). lower (website_status info) = ''live''
                             \<and> lower (dashboard_status info) = ''live'') PROJECTS) =
       [''jamiat'', ''safe'', ''hamqadam'']"
    by code_simp
  then have f: "map fst (search_matches PROJECTS (Some ''live'') (Some ''live'')) =
       [''jamiat'', ''safe'', ''hamqadam'']"
    by (simp only: e)
  have g: \<open>search_by_status PROJECTS (Some ''live'') (Some ''live'') =
       ''{\<newline>''
       @ ''  "jamiat": {\<newline>    "name": "Jamiat",\<newline>    "website status": "live",\<newline>''
       @ ''    "dashboard status": "live",\<newline>    "deployment platform": "Vercel",\<newline>    "cost": "$20/mo"\<newline>  },\<newline>''
       @ ''  "safe": {\<newline>    "name": "SAFE",\<newline>    "website status": "live",\<newline>''
       @ ''    "dashboard status": "live",\<newline>    "deployment platform": "Vercel",\<newline>    "cost": "$20/mo"\<newline>  },\<newline>''
       @ ''  "hamqadam": {\<newline>    "name": "Hamqadam",\<newline>    "website status": "live",\<newline>''
       @ ''    "dashboard status": "live",\<newline>    "deployment platform": "Vercel + Sanity",\<newline>    "cost": "$45/mo"\<newline>  }\<newline>''
       @ ''}''\<close>
    by code_simp
  from a b c d e f g show ?thesis by (intro conjI)
qed

theorem search_by_status_exact_witness:
  \<open>map fst (search_matches PROJECTS (Some ''LIVE'') (Some ''Development'')) = [''sama'', ''next'']
   \<and> search_by_status PROJECTS (Some ''LIVE'') (Some ''Development'') =
       ''{\<newline>''
       @ ''  "sama": {\<newline>    "name": "SAMA",\<newline>    "website status": "live",\<newline>''
       @ ''    "dashboard status": "development",\<newline>    "deployment platform": "Vercel",\<newline>    "cost": "$20/mo"\<newline>  },\<newline>''
       @ ''  "next": {\<newline>    "name": "NEXT",\<newline>    "website status": "live",\<newline>''
       @ ''    "dashboard status": "development",\<newline>    "deployment platform": "Vercel",\<newline>    "cost": "$20/mo"\<newline>  }\<newline>''
       @ ''}''
   \<and> map fst (search_matches PROJECTS None (Some ''live'')) = [''jamiat'', ''safe'', ''hamqadam'']
   \<and> search_matches PROJECTS (Some ''development'') None = []
   \<and> search_by_status PROJECTS (Some ''development'') None =
       ''No projects found with website_status='development', dashboard_status='None''
       @ [CHR 0x27]\<close>
proof -
  note t1 = search_by_status_exact [of "Some ''LIVE''" "Some ''Development''"]
  note t2 = search_by_status_exact [of None "Some ''live''"]
  note t3 = search_by_status_exact [of "Some ''development''" None]
  have "map fst (filter (\<lambda>(pid, info).
            (\<forall>f. Some ''LIVE'' = Some f \<longrightarrow> lower (website_status info) = lower f)
          \<and> (\<forall>f. Some ''Development'' = Some f \<longrightarrow> lower (dashboard_status info) = lower f))
          PROJECTS) = [''sama'', ''next'']"
    by simp code_simp
  then have a: "map fst (search_matches PROJECTS (Some ''LIVE'') (Some ''Development''))
      = [''sama'', ''next'']"
    using t1 by (simp only:)
  have m1: "search_matches PROJECTS (Some ''LIVE'') (Some ''Development'') =
      [PROJECTS ! 1, PROJECTS ! 3]"
    by code_simp
  have \<open>''{'' @ [nl] @ ''  ''
             @ join ('','' @ [nl] @ ''  '')
                 (map (\<lambda>(pid, info).
                ''"'' @ pid @ ''": {'' @ [nl]
                @ ''    "name": "'' @ name info @ ''",'' @ [nl]
                @ ''    "website status": "'' @ website_status info @ ''",'' @ [nl]
                @ ''    "dashboard status": "'' @ dashboard_status info @ ''",'' @ [nl]
                @ ''    "deployment platform": "'' @ deployment_platform info @ ''",'' @ [nl]
                @ ''    "cost": "'' @ cost info @ ''"'' @ [nl]
                @ ''  }'')
                    [PROJECTS ! 1, PROJECTS ! 3])
             @ [nl] @ ''}'' =
       ''{\<newline>''
       @ ''  "sama": {\<newline>    "name": "SAMA",\<newline>    "website status": "live",\<newline>''
       @ ''    "dashboard status": "development",\<newline>    "deployment platform": "Vercel",\<newline>    "cost": "$20/mo"\<newline>  },\<newline>''
       @ ''  "next": {\<newline>    "name": "NEXT",\<newline>    "website status": "live",\<newline>''
       @ ''    "dashboard status": "development",\<newline>    "deployment platform": "Vercel",\<newline>    "cost": "$20/mo"\<newline>  }\<newline>''
       @ ''}''\<close>
    by code_simp
  with t1 [THEN conjunct2, THEN conjunct1]
  have b: \<open>search_by_status PROJECTS (Some ''LIVE'') (Some ''Development'') =
       ''{\<newline>''
       @ ''  "sama": {\<newline>    "name": "SAMA",\<newline>    "website status": "live",\<newline>''
       @ ''    "dashboard status": "development",\<newline>    "deployment platform": "Vercel",\<newline>    "cost": "$20/mo"\<newline>  },\<newline>''
       @ ''  "next": {\<newline>    "name": "NEXT",\<newline>    "website status": "live",\<newline>''
       @ ''    "dashboard status": "development",\<newline>    "deployment platform": "Vercel",\<newline>    "cost": "$20/mo"\<newline>  }\<newline>''
       @ ''}''\<close>
    by (simp only: m1 list.simps if_False)
  have "map fst (filter (\<lambda>(pid, info).
            (\<forall>f. (None :: string option) = Some f \<longrightarrow> lower (website_status info) = lower f)
          \<and> (\<forall>f. Some ''live'' = Some f \<longrightarrow> lower (dashboard_status info) = lower f))
          PROJECTS) = [''jamiat'', ''safe'', ''hamqadam'']"
    by simp code_simp
  then have c: "map fst (search_matches PROJECTS None (Some ''live''))
      = [''jamiat'', ''safe'', ''hamqadam'']"
    using t2 by (simp only:)
  have "filter (\<lambda>(pid, info).
            (\<forall>f. Some ''development'' = Some f \<longrightarrow> lower (website_status info) = lower f)
          \<and> (\<forall>f. (None :: string option) = Some f \<longrightarrow> lower (dashboard_status info) = lower f))
          PROJECTS = []"
    by simp code_simp
  then have d: "search_matches PROJECTS (Some ''development'') None = []"
    using t3 by (simp only:)
  from t3 [THEN conjunct2, THEN conjunct1]
  have e: \<open>search_by_status PROJECTS (Some ''development'') None =
       ''No projects found with website_status='development', dashboard_status='None''
       @ [CHR 0x27]\<close>
    by (simp add: d format_opt_def)
  from a b c d e show ?thesis by (intro conjI)
qed

text \<open>
  Claim C10. When the search finds no record, the message names both filters, and a
  filter that was not supplied is printed as the word \<open>None\<close> between the quotes.
\<close>

theorem search_by_status_none_rendered:
  assumes "search_matches tbl ws ds = []"
  shows "search_by_status tbl ws ds =
           ''No projects found with website_status='' @ [CHR 0x27] @ format_opt ws @ [CHR 0x27]
             @ '', dashboard_status='' @ [CHR 0x27] @ format_opt ds @ [CHR 0x27]
    \<and> format_opt None = ''None''
    \<and> format_opt (Some s) = s
    \<and> (ds = None \<longrightarrow>
          sublist (''dashboard_status='' @ [CHR 0x27] @ ''None'' @ [CHR 0x27])
            (search_by_status tbl ws ds))
    \<and> (ws = None \<longrightarrow>
          sublist (''website_status='' @ [CHR 0x27] @ ''None'' @ [CHR 0x27])
            (search_by_status tbl ws ds))"
proof -
  have eq: "search_by_status tbl ws ds =
           ''No projects found with website_status='' @ [CHR 0x27] @ format_opt ws @ [CHR 0x27]
             @ '', dashboard_status='' @ [CHR 0x27] @ format_opt ds @ [CHR 0x27]"
    using assms by (simp add: search_by_status_def no_projects_message_def)
  have d: "sublist (''dashboard_status='' @ [CHR 0x27] @ ''None'' @ [CHR 0x27])
            (search_by_status tbl ws ds)" if "ds = None"
  proof -
    have fd: "format_opt ds = ''None''"
      using that by (simp add: format_opt_def)
    have "sublist (''dashboard_status='' @ [CHR 0x27] @ format_opt ds @ [CHR 0x27])
       ((''No projects found with website_status='' @ [CHR 0x27] @ format_opt ws @ [CHR 0x27] @ '', '')
        @ (''dashboard_status='' @ [CHR 0x27] @ format_opt ds @ [CHR 0x27]) @ [])"
      by (rule sublist_appendI)
    then show ?thesis by (simp add: eq fd)
  qed
  have w: "sublist (''website_status='' @ [CHR 0x27] @ ''None'' @ [CHR 0x27])
            (search_by_status tbl ws ds)" if "ws = None"
  proof -
    have fw: "format_opt ws = ''None''"
      using that by (simp add: format_opt_def)
    have "sublist (''website_status='' @ [CHR 0x27] @ format_opt ws @ [CHR 0x27])
       (''No projects found with ''
        @ (''website_status='' @ [CHR 0x27] @ format_opt ws @ [CHR 0x27])
        @ ('', dashboard_status='' @ [CHR 0x27] @ format_opt ds @ [CHR 0x27]))"
      by (rule sublist_appendI)
    then show ?thesis by (simp add: eq fw)
  qed
  from eq d w show ?thesis by (simp add: format_opt_def)
qed

theorem search_by_status_none_rendered_witness:
  "search_matches PROJECTS (Some ''archived'') None = []
   \<and> search_by_status PROJECTS (Some ''archived'') None =
       ''No projects found with website_status='archived', dashboard_status='None'' @ [CHR 0x27]"
proof -
  have e: "search_matches PROJECTS (Some ''archived'') None = []" by code_simp
  from search_by_status_none_rendered [OF e] e show ?thesis
    by (simp add: format_opt_def)
qed

section \<open>Listing\<close>

lemma append_loop_map:
  "foldl (\<lambda>acc r. acc @ [f r]) acc0 xs = acc0 @ map f xs"
  by (induction xs arbitrary: acc0) simp_all

lemma list_projects_map:
  "list_projects tbl = join [nl] (map (\<lambda>(pid, info). project_line pid info) tbl)"
proof -
  have "(\<lambda>summary (pid, info). summary @ [project_line pid info])
      = (\<lambda>acc r. acc @ [(\<lambda>(pid, info). project_line pid info) r])"
    by (auto simp: fun_eq_iff)
  then show ?thesis
    by (simp add: list_projects_def append_loop_map)
qed

lemma split_on_no_delim: "d \<notin> set x \<Longrightarrow> split_on d x = [x]"
  by (induction x) auto

lemma split_on_segment: "d \<notin> set x \<Longrightarrow> split_on d (x @ d # rest) = x # split_on d rest"
  by (induction x) auto

lemma split_on_join:
  "ls \<noteq> [] \<Longrightarrow> \<forall>l \<in> set ls. d \<notin> set l \<Longrightarrow> split_on d (join [d] ls) = ls"
proof (induction "[d]" ls rule: join.induct)
  case 1
  then show ?case by simp
next
  case (2 x)
  then show ?case by (simp add: split_on_no_delim)
next
  case (3 x y ys)
  then have "split_on d (join [d] (y # ys)) = y # ys" by simp
  moreover from 3 have "d \<notin> set x" by simp
  ultimately show ?case by (simp add: split_on_segment)
qed

text \<open>
  Claim C7. The listing reads only the table. Its text is the lines of the records joined
  by newlines, one line per record in table order. A line is the five fields name, website
  status, dashboard status, deployment platform and cost, in this order, separated by
  \<open>" - "\<close>; the name is preceded by a bullet and followed by the id in brackets. When no
  field holds a newline, cutting the text at its newlines gives back exactly these lines,
  as many as the table has records.
\<close>

theorem list_projects_lines:
  "list_projects tbl =
     join [nl]
       (map (\<lambda>(pid, info).
               join '' - ''
                 [bullet @ '' '' @ name info @ '' ('' @ pid @ '')'',
                  website_status info, dashboard_status info,
                  deployment_platform info, cost info]) tbl)
   \<and> (tbl \<noteq> [] \<longrightarrow> (\<forall>(pid, info) \<in> set tbl. nl \<notin> set (project_line pid info)) \<longrightarrow>
        split_on nl (list_projects tbl) = map (\<lambda>(pid, info). project_line pid info) tbl
        \<and> length (split_on nl (list_projects tbl)) = length tbl)"
proof (intro conjI impI)
  have "(\<lambda>(pid, info). project_line pid info)
      = (\<lambda>(pid, info). join '' - ''
                 [bullet @ '' '' @ name info @ '' ('' @ pid @ '')'',
                  website_status info, dashboard_status info,
                  deployment_platform info, cost info])"
    by (auto simp: fun_eq_iff project_line_def)
  then show "list_projects tbl =
     join [nl]
       (map (\<lambda>(pid, info).
               join '' - ''
                 [bullet @ '' '' @ name info @ '' ('' @ pid @ '')'',
                  website_status info, dashboard_status info,
                  deployment_platform info, cost info]) tbl)"
    by (simp only: list_projects_map)
next
  assume ne: "tbl \<noteq> []" and nonl: "\<forall>(pid, info) \<in> set tbl. nl \<notin> set (project_line pid info)"
  from ne have "map (\<lambda>(pid, info). project_line pid info) tbl \<noteq> []" by simp
  moreover from nonl
  have "\<forall>l \<in> set (map (\<lambda>(pid, info). project_line pid info) tbl). nl \<notin> set l"
    by auto
  ultimately show s: "split_on nl (list_projects tbl) = map (\<lambda>(pid, info). project_line pid info) tbl"
    unfolding list_projects_map by (rule split_on_join)
  show "length (split_on nl (list_projects tbl)) = length tbl"
    by (simp add: s)
qed

theorem list_projects_lines_witness:
  "PROJECTS \<noteq> []
   \<and> list_all (\<lambda>(pid, info). nl \<notin> set (project_line pid info)) PROJECTS
   \<and> length (split_on nl (list_projects PROJECTS)) = 5
   \<and> split_on nl (list_projects PROJECTS) =
       [bullet @ '' Jamiat (jamiat) - live - live - Vercel - $20/mo'',
        bullet @ '' SAMA (sama) - live - development - Vercel - $20/mo'',
        bullet @ '' SAFE (safe) - live - live - Vercel - $20/mo'',
        bullet @ '' NEXT (next) - live - development - Vercel - $20/mo'',
        bullet @ '' Hamqadam (hamqadam) - live - live - Vercel + Sanity - $45/mo'']"
proof -
  have ne: "PROJECTS \<noteq> []" by (simp add: PROJECTS_def)
  have la: "list_all (\<lambda>(pid, info). nl \<notin> set (project_line pid info)) PROJECTS"
    by code_simp
  then have nonl: "\<forall>(pid, info) \<in> set PROJECTS. nl \<notin> set (project_line pid info)"
    unfolding list_all_iff .
  from list_projects_lines [of PROJECTS] ne nonl
  have "split_on nl (list_projects PROJECTS) = map (\<lambda>(pid, info). project_line pid info) PROJECTS"
    by blast
  moreover have "map (\<lambda>(pid, info). project_line pid info) PROJECTS =
       [bullet @ '' Jamiat (jamiat) - live - live - Vercel - $20/mo'',
        bullet @ '' SAMA (sama) - live - development - Vercel - $20/mo'',
        bullet @ '' SAFE (safe) - live - live - Vercel - $20/mo'',
        bullet @ '' NEXT (next) - live - development - Vercel - $20/mo'',
        bullet @ '' Hamqadam (hamqadam) - live - live - Vercel + Sanity - $45/mo'']"
    by code_simp
  ultimately have "split_on nl (list_projects PROJECTS) =
       [bullet @ '' Jamiat (jamiat) - live - live - Vercel - $20/mo'',
        bullet @ '' SAMA (sama) - live - development - Vercel - $20/mo'',
        bullet @ '' SAFE (safe) - live - live - Vercel - $20/mo'',
        bullet @ '' NEXT (next) - live - development - Vercel - $20/mo'',
        bullet @ '' Hamqadam (hamqadam) - live - live - Vercel + Sanity - $45/mo'']"
    by (simp only:)
  with ne la show ?thesis by simp
qed

section \<open>Total cost\<close>

lemma digits_value_ge: "digits_value acc s = Some n \<Longrightarrow> acc \<le> n"
proof (induction s arbitrary: acc)
  case Nil
  then show ?case by simp
next
  case (Cons c cs)
  then obtain d where "digit_value c = Some d" and "digits_value (10 * acc + d) cs = Some n"
    by (auto split: option.splits)
  with Cons.IH have "10 * acc + d \<le> n" by blast
  then show ?case by simp
qed

lemma py_float_range:
  "py_float s = Some c \<Longrightarrow> is_float c \<and> 0 \<le> num_val c \<and> num_val c < float_limit"
  by (auto simp: py_float_def split: if_splits option.splits)

lemma cost_of_range: "cost_of info = Some c \<Longrightarrow> 0 \<le> num_val c \<and> num_val c < float_limit"
  by (auto simp: cost_of_def Let_def float_limit_def dest: py_float_range split: if_splits)

lemma py_add_val:
  assumes "0 \<le> num_val x" "0 \<le> num_val y" "num_val x + num_val y < float_limit"
  shows "\<exists>z. py_add x y = Some z \<and> num_val z = num_val x + num_val y
             \<and> (is_float z \<longleftrightarrow> is_float x \<or> is_float y)"
  using assms by (cases x; cases y) auto

lemma total_cost_loop_sum:
  assumes "map (\<lambda>(pid, info). cost_of info) tbl = map Some cs"
    and "0 \<le> num_val tot" and "num_val tot + sum_list (map num_val cs) < float_limit"
  shows "\<exists>tot'. total_cost_loop tbl (tot, breakdown)
                   = Some (tot', breakdown @ map (\<lambda>(pid, info). breakdown_line info) tbl)
               \<and> num_val tot' = num_val tot + sum_list (map num_val cs)
               \<and> (is_float tot' \<longleftrightarrow> is_float tot \<or> (\<exists>c \<in> set cs. is_float c))"
  using assms
proof (induction tbl arbitrary: cs tot breakdown)
  case Nil
  then show ?case by simp
next
  case (Cons r rest)
  obtain pid info where r: "r = (pid, info)" by (cases r)
  from Cons.prems(1) obtain c cs' where cs: "cs = c # cs'" and c: "cost_of info = Some c"
    and rest: "map (\<lambda>(pid, info). cost_of info) rest = map Some cs'"
    by (cases cs) (auto simp: r)
  from c have c0: "0 \<le> num_val c" by (simp add: cost_of_range)
  have all0: "0 \<le> sum_list (map num_val cs')"
  proof (rule sum_list_nonneg)
    fix v assume "v \<in> set (map num_val cs')"
    then obtain c' where "c' \<in> set cs'" and v: "v = num_val c'" by auto
    then have "Some c' \<in> set (map (\<lambda>(pid, info). cost_of info) rest)"
      by (simp add: rest)
    then obtain info' where "cost_of info' = Some c'" by auto
    then show "0 \<le> v" by (simp add: v cost_of_range)
  qed
  from Cons.prems(3) all0 have "num_val tot + num_val c < float_limit"
    by (simp add: cs)
  with Cons.prems(2) c0 obtain z where z: "py_add tot c = Some z"
    and zv: "num_val z = num_val tot + num_val c"
    and zf: "is_float z \<longleftrightarrow> is_float tot \<or> is_float c"
    using py_add_val by blast
  from zv Cons.prems(2) c0 have z0: "0 \<le> num_val z" by simp
  from zv Cons.prems(3) have zl: "num_val z + sum_list (map num_val cs') < float_limit"
    by (simp add: cs)
  from Cons.IH [OF rest z0 zl, of "breakdown @ [breakdown_line info]"]
  obtain tot' where
    "total_cost_loop rest (z, breakdown @ [breakdown_line info])
       = Some (tot', (breakdown @ [breakdown_line info]) @ map (\<lambda>(pid, info). breakdown_line info) rest)"
    and "num_val tot' = num_val z + sum_list (map num_val cs')"
    and "is_float tot' \<longleftrightarrow> is_float z \<or> (\<exists>c \<in> set cs'. is_float c)"
    by blast
  then show ?case
    by (auto simp: r cs c z zv zf)
qed

text \<open>
  Claim C2. When every record's cost string, stripped of the dollar sign and of \<open>/mo\<close>, is
  the literal \<open>0\<close> or a number that \<open>float\<close> reads, the total that the handler reports is
  the sum of these numbers over the records of the table. The text is the heading, one
  breakdown line per record in table order (two spaces, the name, a colon and the cost
  string), an empty line, and the total line. The total prints as a float as soon as one
  cost was read by \<open>float\<close>. On the static table the total line is \<open>Total: $125.0/mo\<close>.
\<close>

theorem get_total_cost_sum:
  assumes "map (\<lambda>(pid, info). cost_of info) tbl = map Some cs"
    and "sum_list (map num_val cs) < float_limit"
  shows "\<exists>tot. num_val tot = sum_list (map num_val cs)
             \<and> (is_float tot \<longleftrightarrow> (\<exists>c \<in> set cs. is_float c))
             \<and> get_total_cost tbl =
                 Some (''Monthly Hosting Breakdown:'' @ [nl]
                       @ join [nl] (map (\<lambda>(pid, info). ''  '' @ name info @ '': '' @ cost info) tbl)
                       @ [nl, nl] @ ''Total: $'' @ py_str_num tot @ ''/mo'')"
proof -
  from total_cost_loop_sum [of tbl cs "PyInt 0" "[]"] assms
  obtain tot where loop: "total_cost_loop tbl (PyInt 0, [])
                   = Some (tot, map (\<lambda>(pid, info). breakdown_line info) tbl)"
    and v: "num_val tot = sum_list (map num_val cs)"
    and f: "is_float tot \<longleftrightarrow> (\<exists>c \<in> set cs. is_float c)"
    by auto
  have "map (\<lambda>(pid, info). breakdown_line info) tbl
      = map (\<lambda>(pid, info). ''  '' @ name info @ '': '' @ cost info) tbl"
    by (auto simp: breakdown_line_def)
  with loop have "get_total_cost tbl =
                 Some (''Monthly Hosting Breakdown:'' @ [nl]
                       @ join [nl] (map (\<lambda>(pid, info). ''  '' @ name info @ '': '' @ cost info) tbl)
                       @ [nl, nl] @ ''Total: $'' @ py_str_num tot @ ''/mo'')"
    by (simp add: get_total_cost_def)
  with v f show ?thesis by blast
qed

lemma show_nat_125: "show_nat 125 = ''125''"
  by code_simp

theorem get_total_cost_sum_witness:
  "map (\<lambda>(pid, info). cost_of info) PROJECTS
     = map Some [PyFloat 20, PyFloat 20, PyFloat 20, PyFloat 20, PyFloat 45]
   \<and> sum_list (map num_val [PyFloat 20, PyFloat 20, PyFloat 20, PyFloat 20, PyFloat 45]) = 125
   \<and> get_total_cost PROJECTS =
       Some (''Monthly Hosting Breakdown:\<newline>  Jamiat: $20/mo\<newline>  SAMA: $20/mo\<newline>''
             @ ''  SAFE: $20/mo\<newline>  NEXT: $20/mo\<newline>  Hamqadam: $45/mo\<newline>''
             @ ''\<newline>Total: $125.0/mo'')"
proof -
  have cs: "map (\<lambda>(pid, info). cost_of info) PROJECTS
     = map Some [PyFloat 20, PyFloat 20, PyFloat 20, PyFloat 20, PyFloat 45]"
    by code_simp
  have s: "sum_list (map num_val [PyFloat 20, PyFloat 20, PyFloat 20, PyFloat 20, PyFloat 45]) = 125"
    by simp
  have lim: "sum_list (map num_val [PyFloat 20, PyFloat 20, PyFloat 20, PyFloat 20, PyFloat 45])
      < float_limit"
    by (simp add: float_limit_def)
  from get_total_cost_sum [OF cs lim] obtain tot where
    v: "num_val tot = 125" and f: "is_float tot"
    and r: "get_total_cost PROJECTS =
                 Some (''Monthly Hosting Breakdown:'' @ [nl]
                       @ join [nl] (map (\<lambda>(pid, info). ''  '' @ name info @ '': '' @ cost info) PROJECTS)
                       @ [nl, nl] @ ''Total: $'' @ py_str_num tot @ ''/mo'')"
    by auto
  from v f have "tot = PyFloat 125" by (cases tot) simp_all
  then have "py_str_num tot = ''125.0''"
    by (simp add: show_int_def show_nat_125)
  moreover have "join [nl] (map (\<lambda>(pid, info). ''  '' @ name info @ '': '' @ cost info) PROJECTS)
      = ''  Jamiat: $20/mo\<newline>  SAMA: $20/mo\<newline>  SAFE: $20/mo\<newline>''
        @ ''  NEXT: $20/mo\<newline>  Hamqadam: $45/mo''"
    by code_simp
  ultimately have "get_total_cost PROJECTS =
       Some (''Monthly Hosting Breakdown:\<newline>  Jamiat: $20/mo\<newline>  SAMA: $20/mo\<newline>''
             @ ''  SAFE: $20/mo\<newline>  NEXT: $20/mo\<newline>  Hamqadam: $45/mo\<newline>''
             @ ''\<newline>Total: $125.0/mo'')"
    using r by (simp add: nl_def)
  with cs s show ?thesis by blast
qed

text \<open>A cost string with the literal magnitude \<open>0\<close> counts as the int \<open>0\<close>.\<close>

lemma cost_of_zero: "cost_of (info\<lparr>cost := ''$0/mo''\<rparr>) = Some (PyInt 0)"
  by (simp add: cost_of_def cost_str_of_def)

section \<open>Determinism\<close>

lemma heap_read_old: "a < length h \<Longrightarrow> heap_read a (h @ extra) = heap_read a h"
  by (simp add: heap_read_def nth_append)

lemma heap_read_Some_old: "heap_read a h = Some ob \<Longrightarrow> heap_read a (h @ extra) = Some ob"
  by (auto simp: heap_read_def nth_append split: if_splits)

lemma heap_read_new: "heap_read (length h) (h @ [ob]) = Some ob"
  by (simp add: heap_read_def)

lemma heap_write_new: "heap_write (length h) ob' (h @ [ob]) = h @ [ob']"
  by (simp add: heap_write_def)

lemma deref_items_Cons:
  "deref_items ((pid, a) # rest) h = Some t \<longleftrightarrow>
     (\<exists>info t'. heap_read a h = Some (Rec info) \<and> deref_items rest h = Some t'
                \<and> t = (pid, info) # t')"
  by (auto split: option.splits obj.splits)

text \<open>Objects added behind the store do not change what the old addresses hold.\<close>

lemma deref_items_frame:
  "deref_items entries h = Some t \<Longrightarrow> deref_items entries (h @ extra) = Some t"
proof (induction entries arbitrary: t)
  case Nil
  then show ?case by simp
next
  case (Cons e rest)
  obtain pid a where e: "e = (pid, a)" by (cases e)
  from Cons.prems obtain info t' where r: "heap_read a h = Some (Rec info)"
    and d: "deref_items rest h = Some t'" and t: "t = (pid, info) # t'"
    unfolding e deref_items_Cons by blast
  from d have "deref_items rest (h @ extra) = Some t'" by (rule Cons.IH)
  with r t show ?case
    unfolding e deref_items_Cons by (simp add: heap_read_Some_old)
qed

lemma deref_items_keys: "deref_items entries h = Some t \<Longrightarrow> map fst entries = map fst t"
proof (induction entries arbitrary: t)
  case Nil
  then show ?case by simp
next
  case (Cons e rest)
  obtain pid a where e: "e = (pid, a)" by (cases e)
  from Cons.prems obtain info t' where d: "deref_items rest h = Some t'"
    and t: "t = (pid, info) # t'"
    unfolding e deref_items_Cons by blast
  from d have "map fst rest = map fst t'" by (rule Cons.IH)
  with t show ?case by (simp add: e)
qed

lemma deref_items_lookup:
  "deref_items entries h = Some t \<Longrightarrow>
   (case map_of entries k of
      None \<Rightarrow> map_of t k = None
    | Some a \<Rightarrow> \<exists>info. heap_read a h = Some (Rec info) \<and> map_of t k = Some info)"
proof (induction entries arbitrary: t)
  case Nil
  then show ?case by simp
next
  case (Cons e rest)
  obtain pid a where e: "e = (pid, a)" by (cases e)
  from Cons.prems obtain info t' where r: "heap_read a h = Some (Rec info)"
    and d: "deref_items rest h = Some t'" and t: "t = (pid, info) # t'"
    unfolding e deref_items_Cons by blast
  from d have "case map_of rest k of
      None \<Rightarrow> map_of t' k = None
    | Some a \<Rightarrow> \<exists>info. heap_read a h = Some (Rec info) \<and> map_of t' k = Some info"
    by (rule Cons.IH)
  with r t show ?case by (auto simp: e split: option.splits)
qed

lemma deref_items_update:
  assumes "deref_items ms h = Some cur" and "heap_read a h = Some (Rec info)"
  shows "deref_items (AList.update pid a ms) h = Some (AList.update pid info cur)"
  using assms(1)
proof (induction ms arbitrary: cur)
  case Nil
  with assms(2) show ?case by simp
next
  case (Cons e rest)
  obtain k b where e: "e = (k, b)" by (cases e)
  from Cons.prems obtain info' t' where r: "heap_read b h = Some (Rec info')"
    and d: "deref_items rest h = Some t'" and t: "cur = (k, info') # t'"
    unfolding e deref_items_Cons by blast
  from d have "deref_items (AList.update pid a rest) h = Some (AList.update pid info t')"
    by (rule Cons.IH)
  with r d t assms(2) show ?case by (simp add: e)
qed

lemma deref_items_empty: "deref_items ms h = Some t \<Longrightarrow> ms = [] \<longleftrightarrow> t = []"
  by (cases ms) (auto split: option.splits obj.splits)

text \<open>
  The loops write to the object they created and to nothing else; what they collect there
  is what the handler of the table collects.
\<close>

lemma list_projects_loop_store:
  "deref_items entries h0 = Some t \<Longrightarrow>
   list_projects_loop entries (length h0) (h0 @ [Lst xs])
     = (True, h0 @ [Lst (xs @ map (\<lambda>(pid, info). project_line pid info) t)])"
proof (induction entries arbitrary: t xs)
  case Nil
  then show ?case by simp
next
  case (Cons e rest)
  obtain pid a where e: "e = (pid, a)" by (cases e)
  from Cons.prems obtain info t' where r: "heap_read a h0 = Some (Rec info)"
    and d: "deref_items rest h0 = Some t'" and t: "t = (pid, info) # t'"
    unfolding e deref_items_Cons by blast
  from Cons.IH [OF d, of "xs @ [project_line pid info]"] r t show ?case
    by (simp add: e heap_read_Some_old heap_read_new heap_write_new)
qed

lemma total_cost_store_loop_store:
  "deref_items entries h0 = Some t \<Longrightarrow>
   \<exists>ys. total_cost_store_loop entries (length h0) tot (h0 @ [Lst xs])
          = (map_option fst (total_cost_loop t (tot, xs)), h0 @ [Lst ys])
        \<and> (\<forall>r. total_cost_loop t (tot, xs) = Some r \<longrightarrow> ys = snd r)"
proof (induction entries arbitrary: t xs tot)
  case Nil
  then show ?case by simp
next
  case (Cons e rest)
  obtain pid a where e: "e = (pid, a)" by (cases e)
  from Cons.prems obtain info t' where r: "heap_read a h0 = Some (Rec info)"
    and d: "deref_items rest h0 = Some t'" and t: "t = (pid, info) # t'"
    unfolding e deref_items_Cons by blast
  show ?case
  proof (cases "cost_of info")
    case None
    with r t show ?thesis by (simp add: e heap_read_Some_old)
  next
    case c: (Some c)
    show ?thesis
    proof (cases "py_add tot c")
      case None
      with c r t show ?thesis by (simp add: e heap_read_Some_old)
    next
      case (Some tot')
      from Cons.IH [OF d, of tot' "xs @ [breakdown_line info]"] c Some r t show ?thesis
        by (simp add: e heap_read_Some_old heap_read_new heap_write_new)
    qed
  qed
qed

lemma search_loop_store:
  "deref_items entries h0 = Some t \<Longrightarrow> deref_items ms h0 = Some cur \<Longrightarrow>
   \<exists>ms'. search_loop entries ws ds (length h0) (h0 @ [Dict ms]) = (True, h0 @ [Dict ms'])
        \<and> deref_items ms' h0 =
            Some (foldl (\<lambda>matches (pid, info).
                           if status_match ws (website_status info)
                              \<and> status_match ds (dashboard_status info)
                           then AList.update pid info matches else matches) cur t)"
proof (induction entries arbitrary: t ms cur)
  case Nil
  then show ?case by simp
next
  case (Cons e rest)
  obtain pid a where e: "e = (pid, a)" by (cases e)
  from Cons.prems(1) obtain info t' where r: "heap_read a h0 = Some (Rec info)"
    and d: "deref_items rest h0 = Some t'" and t: "t = (pid, info) # t'"
    unfolding e deref_items_Cons by blast
  show ?case
  proof (cases "status_match ws (website_status info) \<and> status_match ds (dashboard_status info)")
    case True
    from Cons.prems(2) r
    have "deref_items (AList.update pid a ms) h0 = Some (AList.update pid info cur)"
      by (rule deref_items_update)
    from Cons.IH [OF d this] True r t show ?thesis
      by (simp add: e heap_read_Some_old heap_read_new heap_write_new)
  next
    case False
    from False have skip: "\<And>x y. (if status_match ws (website_status info)
          \<and> status_match ds (dashboard_status info) then x else y) = y"
      by (rule if_not_P)
    from Cons.IH [OF d Cons.prems(2)] r t show ?thesis
      by (simp only: e search_loop.simps heap_read_Some_old [OF r] option.case obj.case
          skip foldl_Cons prod.case)
  qed
qed

lemma table_ofE:
  assumes "table_of st = Some tbl"
  obtains entries where "heap_read (projects_ref st) (heap st) = Some (Dict entries)"
    and "deref_items entries (heap st) = Some tbl"
  using assms unfolding table_of_def by (auto split: option.splits obj.splits)

lemma table_of_frame:
  assumes "table_of st = Some tbl"
  shows "table_of (st\<lparr>heap := heap st @ extra\<rparr>) = Some tbl"
proof -
  from assms obtain entries where r: "heap_read (projects_ref st) (heap st) = Some (Dict entries)"
    and d: "deref_items entries (heap st) = Some tbl"
    by (rule table_ofE)
  from r have "heap_read (projects_ref st) (heap st @ extra) = Some (Dict entries)"
    by (rule heap_read_Some_old)
  moreover from d have "deref_items entries (heap st @ extra) = Some tbl"
    by (rule deref_items_frame)
  ultimately show ?thesis by (simp add: table_of_def)
qed

text \<open>On the store each handler returns what the handler of the table returns.\<close>

lemma exec_get_project_refines:
  assumes "table_of st = Some tbl"
  shows "exec_get_project project_id st = (Some (get_project tbl project_id), st)"
proof -
  from assms obtain entries where r: "heap_read (projects_ref st) (heap st) = Some (Dict entries)"
    and d: "deref_items entries (heap st) = Some tbl"
    by (rule table_ofE)
  from d have k: "map fst entries = map fst tbl" by (rule deref_items_keys)
  note l = deref_items_lookup [OF d, of "lower project_id"]
  show ?thesis
  proof (cases "map_of entries (lower project_id)")
    case None
    with l have "map_of tbl (lower project_id) = None" by simp
    with None r k show ?thesis
      by (simp add: exec_get_project_def get_project_def)
  next
    case (Some a)
    with l obtain info where "heap_read a (heap st) = Some (Rec info)"
      and "map_of tbl (lower project_id) = Some info"
      by auto
    with Some r show ?thesis
      by (simp add: exec_get_project_def get_project_def)
  qed
qed

lemma exec_list_projects_refines:
  assumes "table_of st = Some tbl"
  shows "\<exists>extra. exec_list_projects st
           = (Some (list_projects tbl), st\<lparr>heap := heap st @ extra\<rparr>)"
proof -
  from assms obtain entries where r: "heap_read (projects_ref st) (heap st) = Some (Dict entries)"
    and d: "deref_items entries (heap st) = Some tbl"
    by (rule table_ofE)
  from list_projects_loop_store [OF d, of "[]"] r
  have "exec_list_projects st
      = (Some (list_projects tbl),
         st\<lparr>heap := heap st @ [Lst (map (\<lambda>(pid, info). project_line pid info) tbl)]\<rparr>)"
    by (simp add: exec_list_projects_def heap_alloc_def heap_read_new list_projects_map)
  then show ?thesis by blast
qed

lemma exec_get_total_cost_refines:
  assumes "table_of st = Some tbl"
  shows "\<exists>extra. exec_get_total_cost st
           = (get_total_cost tbl, st\<lparr>heap := heap st @ extra\<rparr>)"
proof -
  from assms obtain entries where r: "heap_read (projects_ref st) (heap st) = Some (Dict entries)"
    and d: "deref_items entries (heap st) = Some tbl"
    by (rule table_ofE)
  from total_cost_store_loop_store [OF d, of "PyInt 0" "[]"]
  obtain ys where loop: "total_cost_store_loop entries (length (heap st)) (PyInt 0) (heap st @ [Lst []])
          = (map_option fst (total_cost_loop tbl (PyInt 0, [])), heap st @ [Lst ys])"
    and ys: "\<forall>r. total_cost_loop tbl (PyInt 0, []) = Some r \<longrightarrow> ys = snd r"
    by blast
  have "exec_get_total_cost st = (get_total_cost tbl, st\<lparr>heap := heap st @ [Lst ys]\<rparr>)"
  proof (cases "total_cost_loop tbl (PyInt 0, [])")
    case None
    with loop r show ?thesis
      by (simp add: exec_get_total_cost_def heap_alloc_def heap_read_new get_total_cost_def)
  next
    case (Some res)
    obtain tot bd where res: "res = (tot, bd)" by (cases res)
    from ys Some res have "ys = bd" by simp
    with loop r Some res show ?thesis
      by (simp add: exec_get_total_cost_def heap_alloc_def heap_read_new get_total_cost_def)
  qed
  then show ?thesis by blast
qed

lemma exec_search_by_status_refines:
  assumes "table_of st = Some tbl"
  shows "\<exists>extra. exec_search_by_status ws ds st
           = (Some (search_by_status tbl ws ds), st\<lparr>heap := heap st @ extra\<rparr>)"
proof -
  from assms obtain entries where r: "heap_read (projects_ref st) (heap st) = Some (Dict entries)"
    and d: "deref_items entries (heap st) = Some tbl"
    by (rule table_ofE)
  have "deref_items [] (heap st) = Some []" by simp
  from search_loop_store [OF d this, of ws ds]
  obtain ms where loop: "search_loop entries ws ds (length (heap st)) (heap st @ [Dict []])
        = (True, heap st @ [Dict ms])"
    and m: "deref_items ms (heap st) = Some (search_matches tbl ws ds)"
    unfolding search_matches_def by blast
  from m have e: "ms = [] \<longleftrightarrow> search_matches tbl ws ds = []"
    by (rule deref_items_empty)
  from m have f: "deref_items ms (heap st @ [Dict ms]) = Some (search_matches tbl ws ds)"
    by (rule deref_items_frame)
  from loop r e f
  have "exec_search_by_status ws ds st
      = (Some (search_by_status tbl ws ds), st\<lparr>heap := heap st @ [Dict ms]\<rparr>)"
    by (simp add: exec_search_by_status_def heap_alloc_def heap_read_new search_by_status_def)
  then show ?thesis by blast
qed

lemma exec_refines:
  assumes "table_of st = Some tbl"
  shows "\<exists>extra. exec c st = (fst (run_handler c tbl), st\<lparr>heap := heap st @ extra\<rparr>)"
proof (cases c)
  case (GetProject project_id)
  have "exec_get_project project_id st
      = (Some (get_project tbl project_id), st\<lparr>heap := heap st @ []\<rparr>)"
    using exec_get_project_refines [OF assms] by simp
  then show ?thesis unfolding GetProject by (simp del: append_Nil2) blast
next
  case ListProjects
  with exec_list_projects_refines [OF assms] show ?thesis by simp
next
  case GetTotalCost
  with exec_get_total_cost_refines [OF assms] show ?thesis by simp
next
  case (SearchByStatus ws ds)
  with exec_search_by_status_refines [OF assms] show ?thesis by simp
qed

lemma exec_all_table:
  "table_of st = Some tbl \<Longrightarrow> table_of (exec_all cs st) = Some tbl"
proof (induction cs arbitrary: st)
  case Nil
  then show ?case by (simp add: exec_all_def)
next
  case (Cons c cs)
  from exec_refines [OF Cons.prems, of c] obtain extra where
    "exec c st = (fst (run_handler c tbl), st\<lparr>heap := heap st @ extra\<rparr>)"
    by blast
  moreover from Cons.prems have "table_of (st\<lparr>heap := heap st @ extra\<rparr>) = Some tbl"
    by (rule table_of_frame)
  ultimately have "table_of (snd (exec c st)) = Some tbl" by simp
  then have "table_of (exec_all cs (snd (exec c st))) = Some tbl" by (rule Cons.IH)
  then show ?case by (simp add: exec_all_def)
qed

text \<open>
  Claim C9. A handler creates objects of its own (the list of lines, the dict of matches,
  which shares the records with the table) and writes to these only: after a call the
  name \<open>PROJECTS\<close> is bound as before, every object that was there is as it was, and so the
  table is the same. The text a call returns is a function of its arguments and of the
  table. Hence a second call with the same arguments, made right after the first or
  after any sequence of other calls, returns the same text; this holds for each of the
  four handlers and for every argument.
\<close>

theorem handlers_deterministic:
  assumes "table_of st = Some tbl"
  shows "fst (exec c st) = fst (run_handler c tbl)
     \<and> projects_ref (snd (exec c st)) = projects_ref st
     \<and> take (length (heap st)) (heap (snd (exec c st))) = heap st
     \<and> table_of (snd (exec c st)) = Some tbl
     \<and> fst (exec c (snd (exec c st))) = fst (exec c st)
     \<and> fst (exec c (exec_all cs st)) = fst (exec c st)"
proof -
  from exec_refines [OF assms, of c] obtain extra where
    e: "exec c st = (fst (run_handler c tbl), st\<lparr>heap := heap st @ extra\<rparr>)"
    by blast
  from assms have t1: "table_of (st\<lparr>heap := heap st @ extra\<rparr>) = Some tbl"
    by (rule table_of_frame)
  from exec_refines [OF t1, of c] have again:
    "fst (exec c (st\<lparr>heap := heap st @ extra\<rparr>)) = fst (run_handler c tbl)"
    by auto
  from assms have "table_of (exec_all cs st) = Some tbl" by (rule exec_all_table)
  from exec_refines [OF this, of c] have later:
    "fst (exec c (exec_all cs st)) = fst (run_handler c tbl)"
    by auto
  from e t1 again later show ?thesis by simp
qed

theorem handlers_deterministic_witness:
  "table_of (load_table PROJECTS) = Some PROJECTS
   \<and> heap (snd (exec (SearchByStatus (Some ''live'') (Some ''development'')) (load_table PROJECTS)))
       = heap (load_table PROJECTS) @ [Dict [(''sama'', 1), (''next'', 3)]]
   \<and> fst (exec (SearchByStatus (Some ''live'') (Some ''development''))
            (snd (exec (SearchByStatus (Some ''live'') (Some ''development''))
                    (load_table PROJECTS))))
       = Some (search_by_status PROJECTS (Some ''live'') (Some ''development''))
   \<and> fst (exec (SearchByStatus (Some ''live'') (Some ''development''))
            (exec_all [ListProjects, GetTotalCost, GetProject ''x''] (load_table PROJECTS)))
       = Some (search_by_status PROJECTS (Some ''live'') (Some ''development''))"
proof -
  have a: "table_of (load_table PROJECTS) = Some PROJECTS" by code_simp
  have b: "heap (snd (exec (SearchByStatus (Some ''live'') (Some ''development'')) (load_table PROJECTS)))
       = heap (load_table PROJECTS) @ [Dict [(''sama'', 1), (''next'', 3)]]"
    by code_simp
  note t = handlers_deterministic [OF a,
      of "SearchByStatus (Some ''live'') (Some ''development'')"
         "[ListProjects, GetTotalCost, GetProject ''x'']"]
  from t have c: "fst (exec (SearchByStatus (Some ''live'') (Some ''development''))
            (snd (exec (SearchByStatus (Some ''live'') (Some ''development''))
                    (load_table PROJECTS))))
       = Some (search_by_status PROJECTS (Some ''live'') (Some ''development''))"
    by simp
  from t have d: "fst (exec (SearchByStatus (Some ''live'') (Some ''development''))
            (exec_all [ListProjects, GetTotalCost, GetProject ''x''] (load_table PROJECTS)))
       = Some (search_by_status PROJECTS (Some ''live'') (Some ''development''))"
    by simp
  from a b c d show ?thesis by (intro conjI)
qed

section \<open>Dispatch\<close>

lemma lookup_unknown:
  "nm \<notin> set (map op_name registry) \<Longrightarrow> lookup nm = Inl UnknownOperationError"
proof -
  assume "nm \<notin> set (map op_name registry)"
  then have "find (\<lambda>d. op_name d = nm) registry = None"
    by (auto simp: find_None_iff)
  then show ?thesis by (simp add: lookup_def)
qed

lemma registry_names:
  "map op_name registry = [''get_project'', ''list_projects'', ''get_total_cost'', ''search_by_status'']"
  by (simp add: registry_def)

lemma lookup_get_project:
  "lookup ''get_project'' = Inr (registry ! 0)"
  by (simp add: lookup_def registry_def)

lemma lookup_list_projects:
  "lookup ''list_projects'' = Inr (registry ! 1)"
  by (simp add: lookup_def registry_def)

lemma lookup_get_total_cost:
  "lookup ''get_total_cost'' = Inr (registry ! 2)"
  by (simp add: lookup_def registry_def)

lemma lookup_search_by_status:
  "lookup ''search_by_status'' = Inr (registry ! 3)"
  by (simp add: lookup_def registry_def)

lemma invoke_get_project:
  "invoke tbl ''get_project'' args =
     (case args ''project_id'' of
        None \<Rightarrow> Inl MissingArgumentError
      | Some v \<Rightarrow> (case coerce_str v of
                     None \<Rightarrow> Inl (ArgumentTypeError ''project_id'')
                   | Some s \<Rightarrow> Inr (get_project tbl s)))"
  by (simp add: invoke_def lookup_get_project registry_def split: option.splits)

lemma invoke_list_projects:
  "invoke tbl ''list_projects'' args = Inr (list_projects tbl)"
  by (simp add: invoke_def lookup_list_projects registry_def)

lemma invoke_get_total_cost:
  "invoke tbl ''get_total_cost'' args =
     (case get_total_cost tbl of None \<Rightarrow> Inl HandlerExecutionError | Some out \<Rightarrow> Inr out)"
  by (simp add: invoke_def lookup_get_total_cost registry_def)

lemma invoke_search_by_status:
  "invoke tbl ''search_by_status'' args =
     (case map_option coerce_str (args ''website_status'') of
        Some None \<Rightarrow> Inl (ArgumentTypeError ''website_status'')
      | ws \<Rightarrow>
         (case map_option coerce_str (args ''dashboard_status'') of
            Some None \<Rightarrow> Inl (ArgumentTypeError ''dashboard_status'')
          | ds \<Rightarrow> Inr (search_by_status tbl (Option.bind ws id) (Option.bind ds id))))"
  by (simp add: invoke_def lookup_search_by_status registry_def split: option.splits)

text \<open>
  Claim C8. A name that is not registered makes \<open>invoke\<close> fail with
  \<open>UnknownOperationError\<close>, and the single-record lookup called without its required id
  fails with \<open>MissingArgumentError\<close>; neither call returns a string.
\<close>

theorem invoke_structural_faults:
  "(nm \<notin> set (map op_name registry) \<longrightarrow> invoke tbl nm args = Inl UnknownOperationError)
   \<and> (args ''project_id'' = None \<longrightarrow>
        invoke tbl ''get_project'' args = Inl MissingArgumentError)
   \<and> invoke tbl ''no_such_op'' Map.empty = Inl UnknownOperationError
   \<and> invoke tbl ''get_project'' Map.empty = Inl MissingArgumentError
   \<and> (\<nexists>out. invoke tbl ''no_such_op'' Map.empty = Inr out)
   \<and> (\<nexists>out. invoke tbl ''get_project'' Map.empty = Inr out)"
proof (intro conjI impI)
  assume "nm \<notin> set (map op_name registry)"
  then show "invoke tbl nm args = Inl UnknownOperationError"
    by (simp add: invoke_def lookup_unknown)
next
  assume "args ''project_id'' = None"
  then show "invoke tbl ''get_project'' args = Inl MissingArgumentError"
    by (simp add: invoke_get_project)
next
  have "''no_such_op'' \<notin> set (map op_name registry)"
    unfolding registry_names by simp
  then show u: "invoke tbl ''no_such_op'' Map.empty = Inl UnknownOperationError"
    by (simp add: invoke_def lookup_unknown)
  show "\<nexists>out. invoke tbl ''no_such_op'' Map.empty = Inr out"
    by (simp add: u)
next
  show m: "invoke tbl ''get_project'' Map.empty = Inl MissingArgumentError"
    by (simp add: invoke_get_project)
  show "\<nexists>out. invoke tbl ''get_project'' Map.empty = Inr out"
    by (simp add: m)
qed

theorem invoke_structural_faults_witness:
  "''get_record'' \<notin> set (map op_name registry)
   \<and> invoke PROJECTS ''get_record'' Map.empty = Inl UnknownOperationError
   \<and> [''website_status'' \<mapsto> StrV ''live''] ''project_id'' = None
   \<and> invoke PROJECTS ''get_project'' [''website_status'' \<mapsto> StrV ''live'']
       = Inl MissingArgumentError"
proof -
  have a: "''get_record'' \<notin> set (map op_name registry)"
    unfolding registry_names by simp
  have b: "[''website_status'' \<mapsto> StrV ''live''] ''project_id'' = None"
    by simp
  from invoke_structural_faults [of "''get_record''" PROJECTS Map.empty] a
  have c: "invoke PROJECTS ''get_record'' Map.empty = Inl UnknownOperationError"
    by blast
  from invoke_structural_faults [of _ PROJECTS "[''website_status'' \<mapsto> StrV ''live'']"] b
  have d: "invoke PROJECTS ''get_project'' [''website_status'' \<mapsto> StrV ''live'']
       = Inl MissingArgumentError"
    by blast
  from a b c d show ?thesis by blast
qed

lemma get_total_cost_PROJECTS: "get_total_cost PROJECTS \<noteq> None"
  by code_simp

lemma registry_split:
  "(\<exists>d \<in> set registry. op_name d = nm \<and> Q (parameters d)) \<longleftrightarrow>
     (nm = ''get_project'' \<and> Q [\<lparr>pname = ''project_id'', required = True\<rparr>])
   \<or> (nm = ''list_projects'' \<and> Q [])
   \<or> (nm = ''get_total_cost'' \<and> Q [])
   \<or> (nm = ''search_by_status''
       \<and> Q [\<lparr>pname = ''website_status'', required = False\<rparr>,
            \<lparr>pname = ''dashboard_status'', required = False\<rparr>])"
  by (auto simp: registry_def)

lemma registry_cases:
  "nm \<notin> set (map op_name registry) \<or> nm = ''get_project'' \<or> nm = ''list_projects''
   \<or> nm = ''get_total_cost'' \<or> nm = ''search_by_status''"
  unfolding registry_names by auto

lemma invoke_returns_iff:
  "(\<exists>out. invoke PROJECTS nm args = Inr out)
   \<longleftrightarrow> (\<exists>d \<in> set registry. op_name d = nm \<and> conforms (parameters d) args)"
proof -
  from registry_cases [of nm] show ?thesis
  proof (elim disjE)
    assume unknown: "nm \<notin> set (map op_name registry)"
    then have "invoke PROJECTS nm args = Inl UnknownOperationError"
      by (simp add: invoke_def lookup_unknown)
    moreover from unknown have "\<not> (\<exists>d \<in> set registry. op_name d = nm \<and> conforms (parameters d) args)"
      by auto
    ultimately show ?thesis by simp
  next
    assume gp: "nm = ''get_project''"
    have "(\<exists>out. invoke PROJECTS ''get_project'' args = Inr out)
        \<longleftrightarrow> conforms [\<lparr>pname = ''project_id'', required = True\<rparr>] args"
      unfolding invoke_get_project conforms_def
      by (cases "args ''project_id''") (auto split: option.splits)
    then show ?thesis
      unfolding gp using registry_split [of "''get_project''" "\<lambda>ps. conforms ps args"]
      by simp
  next
    assume lp: "nm = ''list_projects''"
    show ?thesis
      unfolding lp invoke_list_projects
      using registry_split [of "''list_projects''" "\<lambda>ps. conforms ps args"]
      by (simp add: conforms_def)
  next
    assume tc: "nm = ''get_total_cost''"
    show ?thesis
      unfolding tc invoke_get_total_cost
      using get_total_cost_PROJECTS
        registry_split [of "''get_total_cost''" "\<lambda>ps. conforms ps args"]
      by (auto simp: conforms_def)
  next
    assume ss: "nm = ''search_by_status''"
    have "(\<exists>out. invoke PROJECTS ''search_by_status'' args = Inr out)
        \<longleftrightarrow> conforms [\<lparr>pname = ''website_status'', required = False\<rparr>,
                      \<lparr>pname = ''dashboard_status'', required = False\<rparr>] args"
      unfolding invoke_search_by_status conforms_def
      by (cases "args ''website_status''"; cases "args ''dashboard_status''")
         (auto split: option.splits)
    then show ?thesis
      unfolding ss using registry_split [of "''search_by_status''" "\<lambda>ps. conforms ps args"]
      by simp
  qed
qed

lemma invoke_fault_kinds:
  assumes "invoke PROJECTS nm args = Inl e"
  shows "(e = UnknownOperationError \<and> nm \<notin> set (map op_name registry))
       \<or> (\<exists>d \<in> set registry. op_name d = nm \<and>
            (\<exists>p \<in> set (parameters d).
               (e = MissingArgumentError \<and> required p \<and> args (pname p) = None)
             \<or> (e = ArgumentTypeError (pname p)
                 \<and> (\<exists>v. args (pname p) = Some v \<and> coerce_str v = None))))"
proof -
  let ?Q = "\<lambda>ps. \<exists>p \<in> set ps.
               (e = MissingArgumentError \<and> required p \<and> args (pname p) = None)
             \<or> (e = ArgumentTypeError (pname p)
                 \<and> (\<exists>v. args (pname p) = Some v \<and> coerce_str v = None))"
  from registry_cases [of nm] show ?thesis
  proof (elim disjE)
    assume unknown: "nm \<notin> set (map op_name registry)"
    then have "invoke PROJECTS nm args = Inl UnknownOperationError"
      by (simp add: invoke_def lookup_unknown)
    with assms unknown show ?thesis by simp
  next
    assume gp: "nm = ''get_project''"
    from assms have "?Q [\<lparr>pname = ''project_id'', required = True\<rparr>]"
      unfolding gp invoke_get_project
      by (cases "args ''project_id''") (auto split: option.splits)
    then show ?thesis
      unfolding gp using registry_split [of "''get_project''" ?Q] by simp
  next
    assume lp: "nm = ''list_projects''"
    from assms show ?thesis unfolding lp invoke_list_projects by simp
  next
    assume tc: "nm = ''get_total_cost''"
    from assms get_total_cost_PROJECTS show ?thesis unfolding tc invoke_get_total_cost
      by (auto split: option.splits)
  next
    assume ss: "nm = ''search_by_status''"
    from assms have "?Q [\<lparr>pname = ''website_status'', required = False\<rparr>,
                      \<lparr>pname = ''dashboard_status'', required = False\<rparr>]"
      unfolding ss invoke_search_by_status
      by (cases "args ''website_status''"; cases "args ''dashboard_status''")
         (auto split: option.splits)
    then show ?thesis
      unfolding ss using registry_split [of "''search_by_status''" ?Q] by simp
  qed
qed

lemma invoke_status_args:
  "invoke tbl ''search_by_status'' (status_args ws ds) = Inr (search_by_status tbl ws ds)"
  unfolding invoke_search_by_status
  by (cases ws; cases ds) (simp_all add: status_args_def)

text \<open>
  Claim C3. A lookup of an id that is not in the table and a search that matches no record
  are ordinary returns: the handler gives back a readable message (the search one names
  both filter values) and \<open>invoke\<close> passes it on as the call's string result. A fault is
  raised for structural reasons only. On the static table a call returns a string exactly
  when its name is registered and its arguments conform to the declared parameters, and a
  call that fails does so with \<open>UnknownOperationError\<close> for a name that is not registered,
  with \<open>MissingArgumentError\<close> for a required parameter that is absent, or with
  \<open>ArgumentTypeError\<close> for an argument that is not a string; this holds for each of the
  four operations.
\<close>

theorem empty_results_are_not_faults:
  "(\<not> present PROJECTS project_id \<longrightarrow>
      get_project PROJECTS project_id =
        cross_mark @ '' Project '' @ [CHR 0x27] @ project_id @ [CHR 0x27]
          @ '' not found. Available: '' @ repr_list (map fst PROJECTS)
      \<and> invoke PROJECTS ''get_project'' [''project_id'' \<mapsto> StrV project_id]
          = Inr (get_project PROJECTS project_id))
   \<and> (search_matches PROJECTS ws ds = [] \<longrightarrow>
        search_by_status PROJECTS ws ds =
          ''No projects found with website_status='' @ [CHR 0x27] @ format_opt ws @ [CHR 0x27]
            @ '', dashboard_status='' @ [CHR 0x27] @ format_opt ds @ [CHR 0x27]
        \<and> invoke PROJECTS ''search_by_status'' (status_args ws ds)
            = Inr (search_by_status PROJECTS ws ds))
   \<and> ((\<exists>out. invoke PROJECTS nm args = Inr out)
        \<longleftrightarrow> (\<exists>d \<in> set registry. op_name d = nm \<and> conforms (parameters d) args))
   \<and> (invoke PROJECTS nm args = Inl e \<longrightarrow>
        (e = UnknownOperationError \<and> nm \<notin> set (map op_name registry))
        \<or> (\<exists>d \<in> set registry. op_name d = nm \<and>
             (\<exists>p \<in> set (parameters d).
                (e = MissingArgumentError \<and> required p \<and> args (pname p) = None)
              \<or> (e = ArgumentTypeError (pname p)
                  \<and> (\<exists>v. args (pname p) = Some v \<and> coerce_str v = None)))))"
proof (intro conjI impI)
  assume "\<not> present PROJECTS project_id"
  then have "map_of PROJECTS (lower project_id) = None" by (rule absent_miss)
  then show "get_project PROJECTS project_id =
        cross_mark @ '' Project '' @ [CHR 0x27] @ project_id @ [CHR 0x27]
          @ '' not found. Available: '' @ repr_list (map fst PROJECTS)"
    by (rule get_project_miss)
next
  show "invoke PROJECTS ''get_project'' [''project_id'' \<mapsto> StrV project_id]
          = Inr (get_project PROJECTS project_id)"
    by (simp add: invoke_get_project)
next
  assume "search_matches PROJECTS ws ds = []"
  then show "search_by_status PROJECTS ws ds =
          ''No projects found with website_status='' @ [CHR 0x27] @ format_opt ws @ [CHR 0x27]
            @ '', dashboard_status='' @ [CHR 0x27] @ format_opt ds @ [CHR 0x27]"
    by (simp add: search_by_status_def no_projects_message_def)
next
  show "invoke PROJECTS ''search_by_status'' (status_args ws ds)
            = Inr (search_by_status PROJECTS ws ds)"
    by (rule invoke_status_args)
next
  show "(\<exists>out. invoke PROJECTS nm args = Inr out)
        \<longleftrightarrow> (\<exists>d \<in> set registry. op_name d = nm \<and> conforms (parameters d) args)"
    by (rule invoke_returns_iff)
next
  assume "invoke PROJECTS nm args = Inl e"
  then show "(e = UnknownOperationError \<and> nm \<notin> set (map op_name registry))
        \<or> (\<exists>d \<in> set registry. op_name d = nm \<and>
             (\<exists>p \<in> set (parameters d).
                (e = MissingArgumentError \<and> required p \<and> args (pname p) = None)
              \<or> (e = ArgumentTypeError (pname p)
                  \<and> (\<exists>v. args (pname p) = Some v \<and> coerce_str v = None))))"
    by (rule invoke_fault_kinds)
qed

theorem empty_results_are_not_faults_witness:
  "\<not> present PROJECTS ''nonexistent''
   \<and> invoke PROJECTS ''get_project'' [''project_id'' \<mapsto> StrV ''nonexistent'']
       = Inr (cross_mark @ '' Project 'nonexistent' not found. Available: ''
              @ ''['jamiat', 'sama', 'safe', 'next', 'hamqadam']'')
   \<and> search_matches PROJECTS (Some ''archived'') (Some ''live'') = []
   \<and> invoke PROJECTS ''search_by_status'' (status_args (Some ''archived'') (Some ''live''))
       = Inr (''No projects found with website_status='archived', dashboard_status='live''
              @ [CHR 0x27])
   \<and> invoke PROJECTS ''get_project'' [''project_id'' \<mapsto> IntV 3]
       = Inl (ArgumentTypeError ''project_id'')
   \<and> ''get_project'' \<in> set (map op_name registry)
   \<and> \<not> (\<exists>d \<in> set registry. op_name d = ''get_project''
             \<and> conforms (parameters d) [''project_id'' \<mapsto> IntV 3])"
proof -
  note t = empty_results_are_not_faults
    [of "''nonexistent''" "Some ''archived''" "Some ''live''" "''get_project''"
        "[''project_id'' \<mapsto> IntV 3]" "ArgumentTypeError ''project_id''"]
  have a: "\<not> present PROJECTS ''nonexistent''" by code_simp
  have b: "search_matches PROJECTS (Some ''archived'') (Some ''live'') = []" by code_simp
  from t a have "invoke PROJECTS ''get_project'' [''project_id'' \<mapsto> StrV ''nonexistent'']
       = Inr (cross_mark @ '' Project '' @ [CHR 0x27] @ ''nonexistent'' @ [CHR 0x27]
          @ '' not found. Available: '' @ repr_list (map fst PROJECTS))"
    by simp
  then have c: "invoke PROJECTS ''get_project'' [''project_id'' \<mapsto> StrV ''nonexistent'']
       = Inr (cross_mark @ '' Project 'nonexistent' not found. Available: ''
              @ ''['jamiat', 'sama', 'safe', 'next', 'hamqadam']'')"
    by (simp add: repr_list_PROJECTS)
  from t b have sr: "invoke PROJECTS ''search_by_status'' (status_args (Some ''archived'') (Some ''live''))
       = Inr (''No projects found with website_status='archived', dashboard_status='live''
              @ [CHR 0x27])"
    by (simp add: format_opt_def)
  have e: "invoke PROJECTS ''get_project'' [''project_id'' \<mapsto> IntV 3]
       = Inl (ArgumentTypeError ''project_id'')"
    by (simp add: invoke_get_project)
  note kinds = t [THEN conjunct2, THEN conjunct2, THEN conjunct2, THEN mp, OF e]
  then obtain d where d: "d \<in> set registry" "op_name d = ''get_project''"
    by auto
  from d(1) have "op_name d \<in> op_name ` set registry" by (rule imageI)
  then have f: "''get_project'' \<in> set (map op_name registry)"
    by (simp add: d(2))
  note iff = t [THEN conjunct2, THEN conjunct2, THEN conjunct1]
  from iff e have g: "\<not> (\<exists>d \<in> set registry. op_name d = ''get_project''
             \<and> conforms (parameters d) [''project_id'' \<mapsto> IntV 3])"
    by simp
  from a b c sr e f g show ?thesis by (intro conjI)
qed

end
